theory Spec2Isabelle
  imports Main "HOL-Library.AList" "HOL-Library.Multiset"
begin

section \<open>Errors and run-time values\<close>

text \<open>
  The error values of package \<open>rule\<close>. The three \<open>ParseRule...\<close> constructors are the
  package-level error variables; the others stand for the \<open>fmt.Errorf\<close> / \<open>errors.New\<close>
  values built in place, with the strings they interpolate as arguments. The errors of
  the standard library (\<open>strconv.Atoi\<close>, \<open>regexp.MatchString\<close>, the file and the JSON
  decoder) are constructors of their own. A Go panic is the constructor \<open>Panic\<close>: it is
  never caught by an \<open>err != nil\<close> test, so the callers below propagate it separately.
\<close>

datatype error =
    ParseRuleOperatorError
  | ParseRuleJsonDecodingError
  | ParseRuleUnknownOperatorError
  | UnknownRuleOperand
  | MoreThanOneFieldName string
  | DuplicatedRuleName string string
  | DuplicatedFieldName string
  | UnknownFieldType
  | AtoiSyntaxError string
  | AtoiRangeError string
  | RegexpError string
  | IOError string
  | Panic string

text \<open>
  A value of type \<open>interface{}\<close> as the operators see it: the dynamic types that occur
  are \<open>string\<close>, \<open>int\<close>, \<open>bool\<close> and the nil interface. Go strings are byte sequences,
  as \<open>string\<close> is here (a \<open>char\<close> is one byte).
\<close>

datatype go_value = VString string | VInt int | VBool bool | VNil

datatype go_type = TString | TInt | TBool | TNone

fun TypeOf :: "go_value \<Rightarrow> go_type" where
  "TypeOf (VString _) = TString"
| "TypeOf (VInt _) = TInt"
| "TypeOf (VBool _) = TBool"
| "TypeOf VNil = TNone"

section \<open>The standard library calls of the operators\<close>

text \<open>
  \<open>strconv.Itoa\<close> and \<open>strconv.Atoi\<close> on the 64-bit \<open>int\<close>: decimal digits, an optional
  sign for \<open>Atoi\<close>, a syntax error for an empty digit string or a byte that is not
  a digit, and a range error outside \<open>-2^63 .. 2^63 - 1\<close>.
\<close>

definition digit_char :: "nat \<Rightarrow> char" where
  "digit_char d = ''0123456789'' ! d"

fun digits :: "nat \<Rightarrow> string" where
  "digits n = (if n < 10 then [digit_char n] else digits (n div 10) @ [digit_char (n mod 10)])"

definition Itoa :: "int \<Rightarrow> string" where
  "Itoa i = (if i < 0 then CHR ''-'' # digits (nat (- i)) else digits (nat i))"

definition is_digit :: "char \<Rightarrow> bool" where
  "is_digit c = (48 \<le> (of_char c :: nat) \<and> (of_char c :: nat) \<le> 57)"

text \<open>
  The digit loop of \<open>strconv.ParseUint(s, 10, 64)\<close>, which \<open>Atoi\<close> reaches through
  \<open>ParseInt\<close>: byte by byte from the left, a byte that is not a digit is a syntax
  error, and a digit that takes the value past \<open>2^64 - 1\<close> is a range error,
  whichever comes first (\<open>cutoff\<close> is \<open>maxUint64/10 + 1\<close>).
\<close>

datatype NumError = ErrSyntax | ErrRange

fun ParseUint_digits :: "nat \<Rightarrow> string \<Rightarrow> NumError + nat" where
  "ParseUint_digits n [] = Inr n"
| "ParseUint_digits n (c # cs) =
     (if \<not> is_digit c then Inl ErrSyntax
      else if n \<ge> 1844674407370955162 then Inl ErrRange
      else if 10 * n + ((of_char c :: nat) - 48) > 18446744073709551615 then Inl ErrRange
      else ParseUint_digits (10 * n + ((of_char c :: nat) - 48)) cs)"

definition Atoi :: "string \<Rightarrow> error + int" where
  "Atoi s =
     (let neg = (s \<noteq> [] \<and> hd s = CHR ''-'');
          body = (if s \<noteq> [] \<and> (hd s = CHR ''-'' \<or> hd s = CHR ''+'') then tl s else s)
      in if body = [] then Inl (AtoiSyntaxError s)
         else (case ParseUint_digits 0 body of
                 Inl ErrSyntax \<Rightarrow> Inl (AtoiSyntaxError s)
               | Inl ErrRange \<Rightarrow> Inl (AtoiRangeError s)
               | Inr un \<Rightarrow>
                   (if \<not> neg \<and> un \<ge> 9223372036854775808 then Inl (AtoiRangeError s)
                    else if neg \<and> un > 9223372036854775808 then Inl (AtoiRangeError s)
                    else Inr (if neg then - int un else int un))))"

text \<open>
  \<open>regexp.MatchString(pattern, s)\<close> is a parameter of the model, of this type: the
  match result, or the error of a pattern that does not compile.
\<close>

type_synonym MatchString = "string \<Rightarrow> string \<Rightarrow> error + bool"

section \<open>The operator registry\<close>

type_synonym OperatorFn = "go_value list \<Rightarrow> error + go_value"

definition LengthOperator :: string where "LengthOperator = ''LENGTH''"
definition EqualToOperator :: string where "EqualToOperator = ''EQUAL_TO''"
definition GreaterThanOperator :: string where "GreaterThanOperator = ''GREATER_THAN''"
definition OrOperator :: string where "OrOperator = ''OR''"
definition AndOperator :: string where "AndOperator = ''AND''"
definition RegexMatchOperator :: string where "RegexMatchOperator = ''REGEX_MATCH''"

text \<open>The six function literals of \<open>RegisteredOperators\<close>, in the order of the source.\<close>

definition LengthOperatorFn :: OperatorFn where
  "LengthOperatorFn operands =
     (if length operands \<noteq> 1 then Inl ParseRuleOperatorError
      else (case operands ! 0 of
              VString v \<Rightarrow> Inr (VInt (int (length v)))
            | _ \<Rightarrow> Inl ParseRuleOperatorError))"

text \<open>
  The two type switches of \<open>EQUAL_TO\<close> have no default case: an operand that is neither
  a string nor an int leaves \<open>v1\<close> / \<open>v2\<close> at the zero value \<open>""\<close>.
\<close>

definition equal_operand :: "go_value \<Rightarrow> string" where
  "equal_operand x = (case x of VString v \<Rightarrow> v | VInt v \<Rightarrow> Itoa v | _ \<Rightarrow> [])"

definition EqualToOperatorFn :: OperatorFn where
  "EqualToOperatorFn operands =
     (if length operands \<noteq> 2 then Inl ParseRuleOperatorError
      else Inr (VBool (equal_operand (operands ! 0) = equal_operand (operands ! 1))))"

text \<open>
  The two type switches of \<open>GREATER_THAN\<close>: a string goes through \<open>strconv.Atoi\<close>, whose
  error is returned; any other type leaves \<open>v1\<close> / \<open>v2\<close> at the zero value \<open>0\<close>.
\<close>

definition greater_operand :: "go_value \<Rightarrow> error + int" where
  "greater_operand x = (case x of VString v \<Rightarrow> Atoi v | VInt v \<Rightarrow> Inr v | _ \<Rightarrow> Inr 0)"

definition GreaterThanOperatorFn :: OperatorFn where
  "GreaterThanOperatorFn operands =
     (if length operands \<noteq> 2 then Inl ParseRuleOperatorError
      else (case greater_operand (operands ! 0) of
              Inl err \<Rightarrow> Inl err
            | Inr v1 \<Rightarrow>
                (case greater_operand (operands ! 1) of
                   Inl err \<Rightarrow> Inl err
                 | Inr v2 \<Rightarrow> Inr (VBool (v1 > v2)))))"

definition OrOperatorFn :: OperatorFn where
  "OrOperatorFn operands =
     (if length operands \<noteq> 2 then Inl ParseRuleOperatorError
      else if TypeOf (operands ! 0) = TypeOf (operands ! 1) then
        (case (operands ! 0, operands ! 1) of
           (VBool a, VBool b) \<Rightarrow> Inr (VBool (a \<or> b))
         | _ \<Rightarrow> Inl ParseRuleOperatorError)
      else Inl ParseRuleOperatorError)"

definition AndOperatorFn :: OperatorFn where
  "AndOperatorFn operands =
     (if length operands \<noteq> 2 then Inl ParseRuleOperatorError
      else if TypeOf (operands ! 0) = TypeOf (operands ! 1) then
        (case (operands ! 0, operands ! 1) of
           (VBool a, VBool b) \<Rightarrow> Inr (VBool (a \<and> b))
         | _ \<Rightarrow> Inl ParseRuleOperatorError)
      else Inl ParseRuleOperatorError)"

definition RegexMatchOperatorFn :: "MatchString \<Rightarrow> OperatorFn" where
  "RegexMatchOperatorFn rx operands =
     (if length operands \<noteq> 2 then Inl ParseRuleOperatorError
      else if TypeOf (operands ! 0) = TypeOf (operands ! 1) then
        (case (operands ! 0, operands ! 1) of
           (VString p, VString s) \<Rightarrow>
             (case rx p s of Inl err \<Rightarrow> Inl err | Inr m \<Rightarrow> Inr (VBool m))
         | _ \<Rightarrow> Inl ParseRuleOperatorError)
      else Inl ParseRuleOperatorError)"

definition RegisteredOperators :: "MatchString \<Rightarrow> string \<Rightarrow> OperatorFn option" where
  "RegisteredOperators rx name =
     (if name = LengthOperator then Some LengthOperatorFn
      else if name = EqualToOperator then Some EqualToOperatorFn
      else if name = GreaterThanOperator then Some GreaterThanOperatorFn
      else if name = OrOperator then Some OrOperatorFn
      else if name = AndOperator then Some AndOperatorFn
      else if name = RegexMatchOperator then Some (RegexMatchOperatorFn rx)
      else None)"

section \<open>The operand model\<close>

text \<open>
  The three implementations of interface \<open>Operand\<close>. A \<open>TermOperand\<close> keeps its operator
  name and its \<open>OperandList\<close>; its \<open>OperatorFn\<close> pointer is the entry of
  \<open>RegisteredOperators\<close> under that name, set when the term is decoded, so the model
  resolves the name where the source dereferences the pointer (a name with no entry is
  the nil pointer). \<open>ParseOperands\<close> is not read after construction and is left out.
\<close>

datatype Operand =
    FieldOperand string
  | ValueOperand string
  | TermOperand string "Operand list"

text \<open>
  \<open>FieldEvalContext\<close>. \<open>Rule\<close> is an interface value and may be nil (\<open>None\<close>).
\<close>

record FieldEvalContext =
  RuleName :: string
  FieldValue :: string
  Rule :: "Operand option"

definition GetFieldValue :: "FieldEvalContext \<Rightarrow> go_value" where
  "GetFieldValue cx = VString (FieldValue cx)"

text \<open>
  \<open>Evaluate\<close>; \<open>Evaluate_operands\<close> is the \<open>for i, ops := range t.GetOperands()\<close> loop of
  \<open>TermOperand.Evaluate\<close>, filling \<open>evalResult\<close> from index 0 and returning at the
  first error.
\<close>

fun Evaluate :: "MatchString \<Rightarrow> FieldEvalContext \<Rightarrow> Operand \<Rightarrow> error + go_value"
and Evaluate_operands :: "MatchString \<Rightarrow> FieldEvalContext \<Rightarrow> Operand list \<Rightarrow> error + go_value list"
where
  "Evaluate rx cx (FieldOperand n) = Inr (GetFieldValue cx)"
| "Evaluate rx cx (ValueOperand v) = Inr (VString v)"
| "Evaluate rx cx (TermOperand opr ops) =
     (if length ops = 0 then Inr VNil
      else (case Evaluate_operands rx cx ops of
              Inl e \<Rightarrow> Inl e
            | Inr evalResult \<Rightarrow>
                (case RegisteredOperators rx opr of
                   None \<Rightarrow> Inl (Panic ''invalid memory address or nil pointer dereference'')
                 | Some fn \<Rightarrow> fn evalResult)))"
| "Evaluate_operands rx cx [] = Inr []"
| "Evaluate_operands rx cx (ops # rest) =
     (case Evaluate rx cx ops of
        Inl e \<Rightarrow> Inl e
      | Inr v \<Rightarrow>
          (case Evaluate_operands rx cx rest of
             Inl e \<Rightarrow> Inl e
           | Inr vs \<Rightarrow> Inr (v # vs)))"

section \<open>The rule definition parser\<close>

text \<open>
  \<open>Term\<close> records what \<open>Term.UnmarshalJSON\<close> left in \<open>Term.Value\<close>: a \<open>FieldOperand\<close>, a
  \<open>ValueOperand\<close>, or a \<open>TermOperand\<close> with its operator name and \<open>ParseOperands\<close>;
  \<open>Term_nil\<close> is the zero \<open>Term\<close> (a \<open>RuleNode\<close> decoded from an entry with no
  \<open>"rule"\<close> key). The decoder itself (\<open>encoding/json\<close> calling \<open>UnmarshalJSON\<close>) is
  outside the model: a decoded entry is either its error or the \<open>RuleNode\<close>.
\<close>

datatype Term =
    Term_FieldOperand string
  | Term_ValueOperand string
  | Term_TermOperand string "Term list"
  | Term_nil

record RuleNode =
  Name :: string
  RuleContent :: Term

text \<open>
  \<open>fieldList\<close> is a \<open>map[string]int\<close>, kept as an association list with distinct keys
  (\<open>AList.update\<close> overwrites the value of a key that is present).
\<close>

type_synonym fieldList = "(string \<times> int) list"

text \<open>
  \<open>ConstructOperandListHelper\<close>: the \<open>fieldList\<close> argument is mutated in place, so the
  model returns it, also with an error. \<open>Construct_operands\<close> is the loop over
  \<open>ParseOperands\<close>, appending to \<open>OperandList\<close>.
\<close>

fun ConstructOperandListHelper :: "Term \<Rightarrow> fieldList \<Rightarrow> (error + Operand) \<times> fieldList"
and Construct_operands :: "Term list \<Rightarrow> Operand list \<Rightarrow> fieldList \<Rightarrow> (error + Operand list) \<times> fieldList"
where
  "ConstructOperandListHelper (Term_TermOperand opr parseOperands) fl =
     (case Construct_operands parseOperands [] fl of
        (Inl err, fl') \<Rightarrow> (Inl err, fl')
      | (Inr operandList, fl') \<Rightarrow> (Inr (TermOperand opr operandList), fl'))"
| "ConstructOperandListHelper (Term_FieldOperand name) fl =
     (Inr (FieldOperand name), AList.update name 1 fl)"
| "ConstructOperandListHelper (Term_ValueOperand v) fl = (Inr (ValueOperand v), fl)"
| "ConstructOperandListHelper Term_nil fl = (Inl UnknownRuleOperand, fl)"
| "Construct_operands [] operandList fl = (Inr operandList, fl)"
| "Construct_operands (t # rest) operandList fl =
     (case ConstructOperandListHelper t fl of
        (Inl err, fl') \<Rightarrow> (Inl err, fl')
      | (Inr opernd, fl') \<Rightarrow> Construct_operands rest (operandList @ [opernd]) fl')"

section \<open>The rule registry\<close>

text \<open>
  \<open>RegisteredRule\<close> is \<open>map[string]Operand\<close> and \<open>AllRegisteredRules\<close> is
  \<open>map[string]RegisteredRule\<close>: association lists with distinct keys, read with
  \<open>map_of\<close> and written with \<open>AList.update\<close>; the list order is the order a \<open>range\<close>
  loop visits them in (Go leaves that order open). The registry is a global of the
  source; here every function takes it and returns it.

  \<open>SaveRuleToRegister\<close> below is one call run from its first line to its return with
  no other registration in between, as in \<open>loadSystemRules\<close> (which runs in \<open>init\<close>,
  before any request). The source takes and releases the lock three times within a
  call; the steps between the locks, and calls that overlap, are modelled in the next
  subsection.
\<close>

type_synonym RegisteredRule = "(string \<times> Operand option) list"
type_synonym Registry = "(string \<times> RegisteredRule) list"

definition SaveRuleToRegister ::
  "Operand option \<Rightarrow> string \<Rightarrow> fieldList \<Rightarrow> Registry \<Rightarrow> error option \<times> Registry" where
  "SaveRuleToRegister rule ruleName fl reg =
     (let count = length fl;
          fieldName = (if fl = [] then [] else fst (last fl))
      in if count \<noteq> 1 then (Some (MoreThanOneFieldName ruleName), reg)
         else (case map_of reg fieldName of
                 None \<Rightarrow> (None, AList.update fieldName [(ruleName, rule)] reg)
               | Some rules \<Rightarrow>
                   (case map_of rules ruleName of
                      Some _ \<Rightarrow> (Some (DuplicatedRuleName ruleName fieldName), reg)
                    | None \<Rightarrow>
                        (None, AList.update fieldName (AList.update ruleName rule rules) reg))))"

subsection \<open>SaveRuleToRegister between its locks\<close>

text \<open>
  \<open>CreateRule\<close> is an HTTP handler, so calls of \<open>SaveRuleToRegister\<close> may overlap. A
  Go map is a reference: the variable \<open>rules\<close> of a call and the entry of
  \<open>AllRegisteredRules\<close> name the same map. The store keeps that apart: \<open>fieldBuckets\<close>
  is \<open>AllRegisteredRules\<close> with a reference for each field name, \<open>bucketAt\<close> gives the
  \<open>RegisteredRule\<close> map behind a reference, and \<open>nextBucket\<close> is the reference the next
  new map gets. \<open>registryOf\<close> reads the registry off a store.
\<close>

record RuleStore =
  fieldBuckets :: "(string \<times> nat) list"
  bucketAt :: "nat \<Rightarrow> RegisteredRule"
  nextBucket :: nat

definition registryOf :: "RuleStore \<Rightarrow> Registry" where
  "registryOf s = map (\<lambda>(f, a). (f, bucketAt s a)) (fieldBuckets s)"

text \<open>
  Where a call stands: before its \<open>RLock\<close>; after \<open>RUnlock\<close>, holding \<open>fieldName\<close> and,
  if the field had a bucket, the reference \<open>rules\<close>; after the test of
  \<open>rules[ruleName]\<close> (made with no lock held) or after building \<open>regRule\<close>, about to
  take \<open>Lock\<close>; and returned, with its error or none.
\<close>

datatype SaveProgress =
    SaveStart
  | SaveChecked string "nat option"
  | SaveWriting string "nat option"
  | SaveReturned "error option"

text \<open>
  One step of a call: each is what the source does between two lock operations.
  The write of the first branch stores the new map \<open>regRule\<close> under \<open>fieldName\<close>,
  whatever is there by then; the write of the second branch goes into the map the
  call read at its first step.
\<close>

definition SaveRuleToRegister_step ::
  "Operand option \<Rightarrow> string \<Rightarrow> fieldList \<Rightarrow> SaveProgress \<Rightarrow> RuleStore \<Rightarrow> SaveProgress \<times> RuleStore" where
  "SaveRuleToRegister_step rule ruleName fl pc s =
     (case pc of
        SaveStart \<Rightarrow>
          (let count = length fl;
               fieldName = (if fl = [] then [] else fst (last fl))
           in if count \<noteq> 1 then (SaveReturned (Some (MoreThanOneFieldName ruleName)), s)
              else (SaveChecked fieldName (map_of (fieldBuckets s) fieldName), s))
      | SaveChecked fieldName rs \<Rightarrow>
          (case rs of
             None \<Rightarrow> (SaveWriting fieldName None, s)
           | Some a \<Rightarrow>
               (case map_of (bucketAt s a) ruleName of
                  Some _ \<Rightarrow> (SaveReturned (Some (DuplicatedRuleName ruleName fieldName)), s)
                | None \<Rightarrow> (SaveWriting fieldName (Some a), s)))
      | SaveWriting fieldName rs \<Rightarrow>
          (case rs of
             None \<Rightarrow>
               (SaveReturned None,
                s\<lparr>fieldBuckets := AList.update fieldName (nextBucket s) (fieldBuckets s),
                  bucketAt := (bucketAt s)(nextBucket s := [(ruleName, rule)]),
                  nextBucket := Suc (nextBucket s)\<rparr>)
           | Some a \<Rightarrow>
               (SaveReturned None,
                s\<lparr>bucketAt := (bucketAt s)(a := AList.update ruleName rule (bucketAt s a))\<rparr>))
      | SaveReturned e \<Rightarrow> (SaveReturned e, s))"

text \<open>A call run alone: its three steps with nothing in between.\<close>

definition SaveRuleToRegister_alone ::
  "Operand option \<Rightarrow> string \<Rightarrow> fieldList \<Rightarrow> RuleStore \<Rightarrow> SaveProgress \<times> RuleStore" where
  "SaveRuleToRegister_alone rule ruleName fl s =
     (case SaveRuleToRegister_step rule ruleName fl SaveStart s of
        (pc1, s1) \<Rightarrow>
          (case SaveRuleToRegister_step rule ruleName fl pc1 s1 of
             (pc2, s2) \<Rightarrow> SaveRuleToRegister_step rule ruleName fl pc2 s2))"

text \<open>
  Overlapping calls: \<open>runSteps\<close> lets the calls take their steps in the order of a
  schedule, which names the call that moves next (a name out of range moves
  nothing).
\<close>

record SaveCall =
  callRule :: "Operand option"
  callRuleName :: string
  callFieldList :: fieldList

fun runSteps :: "SaveCall list \<Rightarrow> nat list \<Rightarrow> SaveProgress list \<Rightarrow> RuleStore \<Rightarrow> SaveProgress list \<times> RuleStore" where
  "runSteps calls [] pcs s = (pcs, s)"
| "runSteps calls (i # sched) pcs s =
     (if i < length calls \<and> i < length pcs then
        (case SaveRuleToRegister_step (callRule (calls ! i)) (callRuleName (calls ! i))
                (callFieldList (calls ! i)) (pcs ! i) s of
           (pc', s') \<Rightarrow> runSteps calls sched (pcs[i := pc']) s')
      else runSteps calls sched pcs s)"

text \<open>
  The store of an empty registry, and the stores the steps keep to: no two fields
  share a map and every reference in use is below \<open>nextBucket\<close>.
\<close>

definition emptyStore :: RuleStore where
  "emptyStore = \<lparr>fieldBuckets = [], bucketAt = (\<lambda>a. []), nextBucket = 0\<rparr>"

definition storeOk :: "RuleStore \<Rightarrow> bool" where
  "storeOk s = (distinct (map snd (fieldBuckets s))
      \<and> list_all (\<lambda>(f, a). a < nextBucket s) (fieldBuckets s))"

text \<open>
  The body of the HTTP handler \<open>CreateRule\<close> between decoding the request and writing
  the response: the result of \<open>decoder.Decode(&rule)\<close> comes in, and the error the
  response reports (or none) and the registry come out.
\<close>

definition CreateRule :: "error + RuleNode \<Rightarrow> Registry \<Rightarrow> error option \<times> Registry" where
  "CreateRule decoded reg =
     (case decoded of
        Inl err \<Rightarrow> (Some err, reg)
      | Inr rule \<Rightarrow>
          (case ConstructOperandListHelper (RuleContent rule) [] of
             (Inl e, fl) \<Rightarrow> (Some e, reg)
           | (Inr operd, fl) \<Rightarrow> SaveRuleToRegister (Some operd) (Name rule) fl reg))"

text \<open>
  \<open>loadSystemRules\<close>. The rule file is what the calls on it return: the error of
  \<open>os.Open\<close> (or none), the error of reading the opening bracket, the results of
  \<open>decoder.Decode(&r)\<close> for the entries while \<open>decoder.More()\<close> holds, and the error
  of reading the closing bracket. In the loop the error of
  \<open>ConstructOperandListHelper\<close> is assigned to \<open>_\<close> (the rule is then nil) and the
  result of \<open>SaveRuleToRegister\<close> is dropped.
\<close>

record RuleFile =
  openError :: "error option"
  openBracketError :: "error option"
  entries :: "(error + RuleNode) list"
  closeBracketError :: "error option"

fun loadEntries :: "(error + RuleNode) list \<Rightarrow> Registry \<Rightarrow> error option \<times> Registry" where
  "loadEntries [] reg = (None, reg)"
| "loadEntries (Inl err # rest) reg = (Some err, reg)"
| "loadEntries (Inr r # rest) reg =
     (case ConstructOperandListHelper (RuleContent r) [] of
        (res, fl) \<Rightarrow>
          (let rule = (case res of Inl _ \<Rightarrow> None | Inr operand \<Rightarrow> Some operand)
           in loadEntries rest (snd (SaveRuleToRegister rule (Name r) fl reg))))"

definition loadSystemRules :: "RuleFile \<Rightarrow> Registry \<Rightarrow> error option \<times> Registry" where
  "loadSystemRules file reg =
     (case openError file of
        Some err \<Rightarrow> (Some err, reg)
      | None \<Rightarrow>
          (case openBracketError file of
             Some err \<Rightarrow> (Some err, reg)
           | None \<Rightarrow>
               (case loadEntries (entries file) reg of
                  (Some err, reg') \<Rightarrow> (Some err, reg')
                | (None, reg') \<Rightarrow> (closeBracketError file, reg'))))"

section \<open>The input projector\<close>

text \<open>
  A decoded JSON document, as \<open>encoding/json\<close> hands it over in an \<open>interface{}\<close>: a
  string, a number (\<open>float64\<close>, never inspected here, kept as its literal), a boolean,
  null, an object (\<open>map[string]interface{}\<close>, in the order the \<open>range\<close> loop visits
  it) or an array (\<open>[]interface{}\<close>).
\<close>

datatype json =
    JString string
  | JNumber string
  | JBool bool
  | JNull
  | JObject "(string \<times> json) list"
  | JArray "json list"

text \<open>
  \<open>parseInputJSON\<close>: \<open>fields\<close> (\<open>inFields\<close> here; a \<open>map[string]string\<close>, an association list here, new
  keys appended) is mutated in place and comes back with the error (or none).
  \<open>parseSlice\<close> is the loop over the elements of a slice: an element that is a map is
  parsed with the slice's prefix, any other element is ignored.
\<close>

definition nestedPrefix :: "string \<Rightarrow> string \<Rightarrow> string" where
  "nestedPrefix fieldPrefix k =
     (if length fieldPrefix = 0 then k @ ''.'' else fieldPrefix @ ''.'' @ k @ ''.'')"

function (sequential) parseInputJSON ::
  "(string \<times> string) list \<Rightarrow> string \<Rightarrow> (string \<times> json) list \<Rightarrow> error option \<times> (string \<times> string) list"
and parseSlice ::
  "(string \<times> string) list \<Rightarrow> string \<Rightarrow> json list \<Rightarrow> error option \<times> (string \<times> string) list"
where
  "parseInputJSON inFields fieldPrefix [] = (None, inFields)"
| "parseInputJSON inFields fieldPrefix ((k, JString v) # rest) =
     (let fieldName = fieldPrefix @ k
      in if map_of inFields fieldName \<noteq> None then (Some (DuplicatedFieldName fieldName), inFields)
         else parseInputJSON (inFields @ [(fieldName, v)]) fieldPrefix rest)"
| "parseInputJSON inFields fieldPrefix ((k, JObject m) # rest) =
     (case parseInputJSON inFields (nestedPrefix fieldPrefix k) m of
        (Some e, inFields') \<Rightarrow> (Some e, inFields')
      | (None, inFields') \<Rightarrow> parseInputJSON inFields' fieldPrefix rest)"
| "parseInputJSON inFields fieldPrefix ((k, JArray slc) # rest) =
     (case parseSlice inFields (nestedPrefix fieldPrefix k) slc of
        (Some e, inFields') \<Rightarrow> (Some e, inFields')
      | (None, inFields') \<Rightarrow> parseInputJSON inFields' fieldPrefix rest)"
| "parseInputJSON inFields fieldPrefix ((k, v) # rest) = (Some UnknownFieldType, inFields)"
| "parseSlice inFields prefix [] = (None, inFields)"
| "parseSlice inFields prefix (JObject m # rest) =
     (case parseInputJSON inFields prefix m of
        (Some e, inFields') \<Rightarrow> (Some e, inFields')
      | (None, inFields') \<Rightarrow> parseSlice inFields' prefix rest)"
| "parseSlice inFields prefix (v # rest) = parseSlice inFields prefix rest"
  by pat_completeness auto
termination
  by (relation "measure (\<lambda>x. case x of
        Inl (inFields, p, m) \<Rightarrow> size_list (size_prod (\<lambda>_. 0) size) m
      | Inr (inFields, p, slc) \<Rightarrow> size_list size slc)") auto

section \<open>The evaluation engine\<close>

record validationResult =
  flag :: bool
  rules :: "string list"

text \<open>
  The loop that joins the projected fields with the registry: one \<open>FieldEvalContext\<close>
  per rule registered under a field of the input, in the order the two \<open>range\<close> loops
  visit the fields and the rules of a field.
\<close>

definition collectContexts :: "Registry \<Rightarrow> (string \<times> string) list \<Rightarrow> FieldEvalContext list" where
  "collectContexts reg inputFields =
     concat (map (\<lambda>(k, v).
        (case map_of reg k of
           None \<Rightarrow> []
         | Some rs \<Rightarrow> map (\<lambda>(name, rule). \<lparr>RuleName = name, FieldValue = v, Rule = rule\<rparr>) rs))
       inputFields)"

text \<open>
  The evaluation loop of \<open>ValidateInputJSONByRules\<close>: an error of \<open>Evaluate\<close> is printed
  and the rule skipped; \<open>res.(bool)\<close> panics on a result that is not a bool, as does
  the call on a nil rule.
\<close>

fun evaluateContexts :: "MatchString \<Rightarrow> FieldEvalContext list \<Rightarrow> validationResult \<Rightarrow> error + validationResult" where
  "evaluateContexts rx [] result = Inr result"
| "evaluateContexts rx (cx # rest) result =
     (case Rule cx of
        None \<Rightarrow> Inl (Panic ''invalid memory address or nil pointer dereference'')
      | Some operand \<Rightarrow>
          (case Evaluate rx cx operand of
             Inl (Panic msg) \<Rightarrow> Inl (Panic msg)
           | Inl err \<Rightarrow> evaluateContexts rx rest result
           | Inr (VBool res) \<Rightarrow>
               (if \<not> res
                then evaluateContexts rx rest (result\<lparr>flag := res, rules := rules result @ [RuleName cx]\<rparr>)
                else evaluateContexts rx rest result)
           | Inr _ \<Rightarrow> Inl (Panic ''interface conversion: interface {} is not bool'')))"

definition ValidateInputJSONByRules ::
  "MatchString \<Rightarrow> Registry \<Rightarrow> (string \<times> json) list \<Rightarrow> error + validationResult" where
  "ValidateInputJSONByRules rx reg input =
     (case parseInputJSON [] [] input of
        (Some err, inputFields) \<Rightarrow> Inl err
      | (None, inputFields) \<Rightarrow>
          evaluateContexts rx (collectContexts reg inputFields) \<lparr>flag = True, rules = []\<rparr>)"

subsection \<open>The concurrent strategy\<close>

record ValidatorState =
  state_flag :: bool
  state_rules :: "string list"

definition CombineResult :: "ValidatorState \<Rightarrow> ValidatorState \<Rightarrow> ValidatorState" where
  "CombineResult s r =
     (let s1 = (if state_flag s then s\<lparr>state_flag := state_flag r\<rparr> else s)
      in s1\<lparr>state_rules := state_rules s1 @ state_rules r\<rparr>)"

text \<open>
  An \<open>Executor\<close> takes the task data and returns its \<open>ExecutorResult\<close>, or panics.
  \<open>createValidatorExecutor\<close> starts from the zero \<open>ValidatorState\<close> (flag false, no
  rules) and returns it unchanged when \<open>Evaluate\<close> returns an error.
\<close>

type_synonym Executor = "int \<Rightarrow> error + ValidatorState"

definition createValidatorExecutor :: "MatchString \<Rightarrow> FieldEvalContext \<Rightarrow> Executor" where
  "createValidatorExecutor rx ctx data =
     (let ret = \<lparr>state_flag = False, state_rules = []\<rparr>
      in case Rule ctx of
           None \<Rightarrow> Inl (Panic ''invalid memory address or nil pointer dereference'')
         | Some operand \<Rightarrow>
             (case Evaluate rx ctx operand of
                Inl (Panic msg) \<Rightarrow> Inl (Panic msg)
              | Inl err \<Rightarrow> Inr ret
              | Inr (VBool res) \<Rightarrow>
                  Inr (if \<not> res then \<lparr>state_flag = res, state_rules = state_rules ret @ [RuleName ctx]\<rparr>
                       else ret\<lparr>state_flag := res\<rparr>)
              | Inr _ \<Rightarrow> Inl (Panic ''interface conversion: interface {} is not bool'')))"

record ValidationTask =
  inputRuntimeContexts :: "FieldEvalContext list"

definition GetTaskData :: "ValidationTask \<Rightarrow> int" where
  "GetTaskData v = 1"

definition GetAllExecutors :: "MatchString \<Rightarrow> ValidationTask \<Rightarrow> Executor list" where
  "GetAllExecutors rx v = map (createValidatorExecutor rx) (inputRuntimeContexts v)"

text \<open>
  Modelled from the spec: \<open>util.ExecutAppTask\<close> (package \<open>util\<close> is not among the
  sources). The spec has it dispatch one task per executor, wait for all of them and
  reduce their results into the initial state with \<open>CombineResult\<close>, in whatever order
  the tasks complete. That order is the argument \<open>sched\<close>: the indices of the
  executors in completion order, a permutation of \<open>[0..<n]\<close>. A panic in a task ends
  the process.
\<close>

fun reduceResults :: "(error + ValidatorState) list \<Rightarrow> ValidatorState \<Rightarrow> error + ValidatorState" where
  "reduceResults [] state = Inr state"
| "reduceResults (Inl e # rest) state = Inl e"
| "reduceResults (Inr r # rest) state = reduceResults rest (CombineResult state r)"

definition ExecutAppTask ::
  "nat list \<Rightarrow> Executor list \<Rightarrow> int \<Rightarrow> ValidatorState \<Rightarrow> error + ValidatorState" where
  "ExecutAppTask sched executors data init =
     reduceResults (map (\<lambda>i. (executors ! i) data) sched) init"

definition ValidateInputJSONByRules2 ::
  "MatchString \<Rightarrow> nat list \<Rightarrow> Registry \<Rightarrow> (string \<times> json) list \<Rightarrow> error + validationResult" where
  "ValidateInputJSONByRules2 rx sched reg input =
     (case parseInputJSON [] [] input of
        (Some err, inputFields) \<Rightarrow> Inl err
      | (None, inputFields) \<Rightarrow>
          (let task = \<lparr>inputRuntimeContexts = collectContexts reg inputFields\<rparr>
           in case ExecutAppTask sched (GetAllExecutors rx task) (GetTaskData task)
                     \<lparr>state_flag = True, state_rules = []\<rparr> of
                Inl e \<Rightarrow> Inl e
              | Inr state \<Rightarrow> Inr \<lparr>flag = state_flag state, rules = state_rules state\<rparr>))"

section \<open>Notions the properties are stated with\<close>

text \<open>
  The result of \<open>operand.Evaluate(ctx)\<close> on a context's own rule, as both engines
  call it: a nil rule panics.
\<close>

definition ruleResult :: "MatchString \<Rightarrow> FieldEvalContext \<Rightarrow> error + go_value" where
  "ruleResult rx cx =
     (case Rule cx of
        None \<Rightarrow> Inl (Panic ''invalid memory address or nil pointer dereference'')
      | Some operand \<Rightarrow> Evaluate rx cx operand)"

text \<open>
  The field names that \<open>FieldOperand\<close> nodes of a decoded rule tree refer to, and the
  trees in which every node is one of the three shapes (no zero \<open>Term\<close>).
\<close>

fun fieldNames :: "Term \<Rightarrow> string set" where
  "fieldNames (Term_FieldOperand name) = {name}"
| "fieldNames (Term_ValueOperand v) = {}"
| "fieldNames (Term_TermOperand opr ts) = \<Union> (set (map fieldNames ts))"
| "fieldNames Term_nil = {}"

fun decoded :: "Term \<Rightarrow> bool" where
  "decoded (Term_FieldOperand name) = True"
| "decoded (Term_ValueOperand v) = True"
| "decoded (Term_TermOperand opr ts) = list_all decoded ts"
| "decoded Term_nil = False"

text \<open>The rule registered under a field name and a rule name, if any.\<close>

definition lookupRule :: "Registry \<Rightarrow> string \<Rightarrow> string \<Rightarrow> Operand option option" where
  "lookupRule reg fieldName ruleName =
     (case map_of reg fieldName of None \<Rightarrow> None | Some rs \<Rightarrow> map_of rs ruleName)"

text \<open>
  Following the spec's words for \<open>LENGTH\<close> ("its character count"): the number of
  characters of a string in UTF-8, that is, of its bytes that are not continuation
  bytes (\<open>0x80 .. 0xBF\<close>). A byte below \<open>0x80\<close> is an ASCII character.
\<close>

definition is_ascii :: "char \<Rightarrow> bool" where
  "is_ascii c = ((of_char c :: nat) < 128)"

definition character_count :: "string \<Rightarrow> nat" where
  "character_count s = length (filter (\<lambda>c. (of_char c :: nat) div 64 \<noteq> 2) s)"

section \<open>Properties of the operand model\<close>

lemmas operator_names =
  LengthOperator_def EqualToOperator_def GreaterThanOperator_def
  OrOperator_def AndOperator_def RegexMatchOperator_def

lemma Evaluate_operands_map:
  "Evaluate_operands rx cx ops = Inr vs \<longleftrightarrow> map (Evaluate rx cx) ops = map Inr vs"
proof (induction ops arbitrary: vs)
  case Nil
  then show ?case by auto
next
  case (Cons a ops)
  show ?case
  proof (cases "Evaluate rx cx a")
    case (Inl e)
    then show ?thesis by (cases vs) auto
  next
    case (Inr v)
    note va = Inr
    show ?thesis
    proof (cases "Evaluate_operands rx cx ops")
      case (Inl e)
      with va Cons.IH show ?thesis by (cases vs) auto
    next
      case (Inr ws)
      with va Cons.IH show ?thesis by (cases vs) auto
    qed
  qed
qed

lemma Evaluate_operands_first_error:
  "Evaluate_operands rx cx pre = Inr vs \<Longrightarrow> Evaluate rx cx c = Inl e \<Longrightarrow>
   Evaluate_operands rx cx (pre @ c # post) = Inl e"
  by (induction pre arbitrary: vs) (auto split: sum.splits)

text \<open>
  C8. \<open>TermOperand.Evaluate\<close> with no children returns the nil value and no error,
  whatever the operator is (also one with no function behind it: the operator is not
  invoked). With children: when the children before \<open>c\<close> evaluate to values and \<open>c\<close>
  evaluates to an error, that error is the result, whatever children follow \<open>c\<close> and
  whatever the operator is (the first error in left-to-right order is returned, the
  rest and the operator play no part). When every child evaluates to a value, the
  result is the operator's function applied to the list of those values in the
  children's order.
\<close>

theorem TermOperand_Evaluate_left_to_right:
  "Evaluate rx cx (TermOperand opr []) = Inr VNil
   \<and> (\<forall>pre c post vs e.
        map (Evaluate rx cx) pre = map Inr vs \<and> Evaluate rx cx c = Inl e
        \<longrightarrow> Evaluate rx cx (TermOperand opr (pre @ c # post)) = Inl e)
   \<and> (\<forall>ops vs fn.
        ops \<noteq> [] \<and> map (Evaluate rx cx) ops = map Inr vs \<and> RegisteredOperators rx opr = Some fn
        \<longrightarrow> Evaluate rx cx (TermOperand opr ops) = fn vs)"
proof (intro conjI allI impI)
  show "Evaluate rx cx (TermOperand opr []) = Inr VNil" by simp
next
  fix pre c post vs e
  assume h: "map (Evaluate rx cx) pre = map Inr vs \<and> Evaluate rx cx c = Inl e"
  then have "Evaluate_operands rx cx pre = Inr vs"
    by (simp add: Evaluate_operands_map)
  with h have "Evaluate_operands rx cx (pre @ c # post) = Inl e"
    by (simp add: Evaluate_operands_first_error)
  then show "Evaluate rx cx (TermOperand opr (pre @ c # post)) = Inl e" by simp
next
  fix ops vs fn
  assume h: "ops \<noteq> [] \<and> map (Evaluate rx cx) ops = map Inr vs \<and> RegisteredOperators rx opr = Some fn"
  then have "Evaluate_operands rx cx ops = Inr vs"
    by (simp add: Evaluate_operands_map)
  with h show "Evaluate rx cx (TermOperand opr ops) = fn vs" by simp
qed

text \<open>
  The theorem at \<open>GREATER_THAN\<close>: with children \<open>"6"\<close>, a \<open>LENGTH\<close> of two operands (an
  operator error) and a term of an unregistered operator, the result is the error of
  the second child; with children \<open>LENGTH(field)\<close> and \<open>"6"\<close> on the field value
  \<open>"bill"\<close>, the result is \<open>GREATER_THAN\<close> applied to \<open>[4, "6"]\<close>.
\<close>

theorem TermOperand_Evaluate_left_to_right_witness:
  "Evaluate (\<lambda>p s. Inr True) \<lparr>RuleName = ''r'', FieldValue = ''bill'', Rule = None\<rparr>
     (TermOperand ''GREATER_THAN''
        ([ValueOperand ''6''] @ TermOperand ''LENGTH'' [FieldOperand ''f'', FieldOperand ''f'']
           # [TermOperand ''NOPE'' [ValueOperand ''x'']]))
     = Inl ParseRuleOperatorError
   \<and> Evaluate (\<lambda>p s. Inr True) \<lparr>RuleName = ''r'', FieldValue = ''bill'', Rule = None\<rparr>
     (TermOperand ''GREATER_THAN'' [TermOperand ''LENGTH'' [FieldOperand ''f''], ValueOperand ''6''])
     = GreaterThanOperatorFn [VInt 4, VString ''6'']"
proof -
  let ?rx = "\<lambda>p s. Inr True :: error + bool"
  let ?cx = "\<lparr>RuleName = ''r'', FieldValue = ''bill'', Rule = None\<rparr>"
  have a: "map (Evaluate ?rx ?cx) [ValueOperand ''6''] = map Inr [VString ''6'']
     \<and> Evaluate ?rx ?cx (TermOperand ''LENGTH'' [FieldOperand ''f'', FieldOperand ''f''])
         = Inl ParseRuleOperatorError"
    by (simp add: RegisteredOperators_def operator_names LengthOperatorFn_def GetFieldValue_def)
  have b: "[TermOperand ''LENGTH'' [FieldOperand ''f''], ValueOperand ''6''] \<noteq> []
     \<and> map (Evaluate ?rx ?cx) [TermOperand ''LENGTH'' [FieldOperand ''f''], ValueOperand ''6'']
         = map Inr [VInt 4, VString ''6'']
     \<and> RegisteredOperators ?rx ''GREATER_THAN'' = Some GreaterThanOperatorFn"
    by (simp add: RegisteredOperators_def operator_names LengthOperatorFn_def GetFieldValue_def)
  from TermOperand_Evaluate_left_to_right [of ?rx ?cx "''GREATER_THAN''"] a b
  show ?thesis by blast
qed

section \<open>Properties of the operators\<close>

text \<open>The two conversions on small and on extreme inputs.\<close>

lemma Itoa_examples: "Itoa 0 = ''0'' \<and> Itoa 42 = ''42'' \<and> Itoa (-907) = ''-907''"
  by (simp add: Itoa_def digit_char_def)

lemma Atoi_examples: "Atoi ''+42'' = Inr 42 \<and> Atoi ''-907'' = Inr (-907) \<and> Atoi ''4 2'' = Inl (AtoiSyntaxError ''4 2'')
  \<and> Atoi ''9223372036854775808'' = Inl (AtoiRangeError ''9223372036854775808'')
  \<and> Atoi ''-9223372036854775808'' = Inr (-9223372036854775808) \<and> Atoi [] = Inl (AtoiSyntaxError [])
  \<and> Atoi ''-'' = Inl (AtoiSyntaxError ''-'')
  \<and> Atoi ''99999999999999999999x'' = Inl (AtoiRangeError ''99999999999999999999x'')
  \<and> Atoi ''9999999999999999999x'' = Inl (AtoiSyntaxError ''9999999999999999999x'')"
  by (simp add: Atoi_def is_digit_def)

lemma character_count_ascii: "list_all is_ascii s \<Longrightarrow> character_count s = length s"
  unfolding character_count_def is_ascii_def
  by (induction s) auto

lemma LengthOperatorFn_error:
  assumes "\<forall>s. operands \<noteq> [VString s]"
  shows "LengthOperatorFn operands = Inl ParseRuleOperatorError"
proof (cases operands)
  case Nil
  then show ?thesis by (simp add: LengthOperatorFn_def)
next
  case (Cons x xs)
  show ?thesis
  proof (cases xs)
    case Nil
    with Cons assms show ?thesis by (cases x) (simp_all add: LengthOperatorFn_def)
  next
    case (Cons y ys)
    with \<open>operands = x # xs\<close> show ?thesis by (simp add: LengthOperatorFn_def)
  qed
qed

text \<open>
  C9, as amended. \<open>LENGTH\<close> is registered; on a single string operand it returns the
  string's length in bytes (\<open>len(v)\<close>), which is its number of characters when every
  byte is ASCII; on any other operand list (another count, or an operand that is not
  a string) it returns the operator error.
\<close>

theorem LengthOperatorFn_byte_length:
  "RegisteredOperators rx LengthOperator = Some LengthOperatorFn
   \<and> LengthOperatorFn [VString s] = Inr (VInt (int (length s)))
   \<and> (list_all is_ascii s \<longrightarrow> LengthOperatorFn [VString s] = Inr (VInt (int (character_count s))))
   \<and> ((\<forall>s. operands \<noteq> [VString s]) \<longrightarrow> LengthOperatorFn operands = Inl ParseRuleOperatorError)"
  using LengthOperatorFn_error [of operands]
  by (simp add: RegisteredOperators_def LengthOperatorFn_def character_count_ascii)

text \<open>
  The theorem at \<open>"bwillis"\<close> (seven ASCII bytes, seven characters) and at the operand
  list \<open>[7]\<close>.
\<close>

theorem LengthOperatorFn_byte_length_witness:
  "list_all is_ascii ''bwillis''
   \<and> LengthOperatorFn [VString ''bwillis''] = Inr (VInt (int (character_count ''bwillis'')))
   \<and> LengthOperatorFn [VString ''bwillis''] = Inr (VInt 7)
   \<and> LengthOperatorFn [VInt 7] = Inl ParseRuleOperatorError"
proof -
  have a: "list_all is_ascii ''bwillis''" by (simp add: is_ascii_def)
  have b: "\<forall>s. [VInt 7] \<noteq> [VString s]" by simp
  from LengthOperatorFn_byte_length [of "\<lambda>p s. Inr True" "''bwillis''" "[VInt 7]"] a b
  have "LengthOperatorFn [VString ''bwillis''] = Inr (VInt (int (character_count ''bwillis'')))
     \<and> LengthOperatorFn [VString ''bwillis''] = Inr (VInt (int (length ''bwillis'')))
     \<and> LengthOperatorFn [VInt 7] = Inl ParseRuleOperatorError" by blast
  with a show ?thesis by (simp add: character_count_def)
qed

text \<open>
  C9 as stated fails: the string of the two bytes \<open>0xC3 0xA9\<close> (one character,
  e with acute accent, in UTF-8) has \<open>LENGTH\<close> 2 and character count 1.
\<close>

theorem LengthOperatorFn_character_count_counterexample:
  "LengthOperatorFn [VString [char_of (195 :: nat), char_of (169 :: nat)]] = Inr (VInt 2)
   \<and> character_count [char_of (195 :: nat), char_of (169 :: nat)] = 1
   \<and> LengthOperatorFn [VString [char_of (195 :: nat), char_of (169 :: nat)]]
        \<noteq> Inr (VInt (int (character_count [char_of (195 :: nat), char_of (169 :: nat)])))"
  by (simp add: LengthOperatorFn_def character_count_def)

text \<open>
  \<open>OR\<close>, \<open>AND\<close> and \<open>REGEX_MATCH\<close> do check their operands: they return a value only on
  two booleans, respectively two strings.
\<close>

lemma two_operands:
  assumes "length (operands :: go_value list) = 2"
  shows "\<exists>x y. operands = [x, y]"
  using assms by (metis (no_types) length_0_conv length_Suc_conv numeral_2_eq_2)

lemma OrOperatorFn_checks:
  assumes "OrOperatorFn operands = Inr v"
  shows "\<exists>a b. operands = [VBool a, VBool b]"
proof -
  from assms have "length operands = 2"
    by (auto simp: OrOperatorFn_def split: if_splits)
  then obtain x y where xy: "operands = [x, y]" using two_operands by blast
  with assms show ?thesis
    by (cases x; cases y) (auto simp: OrOperatorFn_def)
qed

lemma AndOperatorFn_checks:
  assumes "AndOperatorFn operands = Inr v"
  shows "\<exists>a b. operands = [VBool a, VBool b]"
proof -
  from assms have "length operands = 2"
    by (auto simp: AndOperatorFn_def split: if_splits)
  then obtain x y where xy: "operands = [x, y]" using two_operands by blast
  with assms show ?thesis
    by (cases x; cases y) (auto simp: AndOperatorFn_def)
qed

lemma RegexMatchOperatorFn_checks:
  assumes "RegexMatchOperatorFn rx operands = Inr v"
  shows "\<exists>p s. operands = [VString p, VString s]"
proof -
  from assms have "length operands = 2"
    by (auto simp: RegexMatchOperatorFn_def split: if_splits)
  then obtain x y where xy: "operands = [x, y]" using two_operands by blast
  with assms show ?thesis
    by (cases x; cases y) (auto simp: RegexMatchOperatorFn_def)
qed

text \<open>
  C7 at its failing inputs. \<open>EQUAL_TO\<close> and \<open>GREATER_THAN\<close> are registered, and on
  operands of a type they have no case for (a boolean, nil) they return a boolean and
  no error: \<open>EQUAL_TO(true, false)\<close> is true, \<open>EQUAL_TO(nil, "")\<close> is true,
  \<open>GREATER_THAN(true, "-1")\<close> is true, \<open>GREATER_THAN(nil, true)\<close> is false; and the
  rule tree \<open>EQUAL_TO(EQUAL_TO(field, "a"), "")\<close> on the field value \<open>"b"\<close> evaluates to
  true.
\<close>

theorem EqualTo_GreaterThan_unsupported_types:
  "RegisteredOperators rx EqualToOperator = Some EqualToOperatorFn
   \<and> EqualToOperatorFn [VBool True, VBool False] = Inr (VBool True)
   \<and> EqualToOperatorFn [VNil, VString []] = Inr (VBool True)
   \<and> RegisteredOperators rx GreaterThanOperator = Some GreaterThanOperatorFn
   \<and> GreaterThanOperatorFn [VBool True, VString ''-1''] = Inr (VBool True)
   \<and> GreaterThanOperatorFn [VNil, VBool True] = Inr (VBool False)
   \<and> Evaluate rx \<lparr>RuleName = ''r'', FieldValue = ''b'', Rule = None\<rparr>
        (TermOperand ''EQUAL_TO'' [TermOperand ''EQUAL_TO'' [FieldOperand ''f'', ValueOperand ''a''], ValueOperand []])
        = Inr (VBool True)"
  by (simp add: RegisteredOperators_def operator_names EqualToOperatorFn_def equal_operand_def
      GreaterThanOperatorFn_def greater_operand_def Atoi_def is_digit_def GetFieldValue_def)

section \<open>Properties of the parser and the registry\<close>

lemma Construct_fields:
  "(ConstructOperandListHelper t fl = (Inr opd, fl') \<longrightarrow>
      fst ` set fl' = fst ` set fl \<union> fieldNames t \<and> (distinct (map fst fl) \<longrightarrow> distinct (map fst fl')))"
  "(Construct_operands ts acc fl = (Inr ol, fl') \<longrightarrow>
      fst ` set fl' = fst ` set fl \<union> \<Union> (set (map fieldNames ts)) \<and> (distinct (map fst fl) \<longrightarrow> distinct (map fst fl')))"
proof (induction t fl and ts acc fl arbitrary: opd fl' and ol fl' rule: ConstructOperandListHelper_Construct_operands.induct)
  case (1 opr parseOperands fl)
  show ?case
  proof
    assume a: "ConstructOperandListHelper (Term_TermOperand opr parseOperands) fl = (Inr opd, fl')"
    obtain r fl1 where c: "Construct_operands parseOperands [] fl = (r, fl1)"
      by (cases "Construct_operands parseOperands [] fl")
    from a c obtain ol where r: "r = Inr ol" and f: "fl1 = fl'"
      by (cases r) auto
    from 1[of ol fl'] c r f show "fst ` set fl' = fst ` set fl \<union> fieldNames (Term_TermOperand opr parseOperands)
       \<and> (distinct (map fst fl) \<longrightarrow> distinct (map fst fl'))" by simp
  qed
next
  case (2 name fl)
  show ?case using AList.dom_update[of name 1 fl] AList.distinct_update[of fl name 1] by auto
next
  case (3 v fl)
  show ?case by auto
next
  case (4 fl)
  show ?case by auto
next
  case (5 operandList fl)
  show ?case by auto
next
  case (6 t rest operandList fl)
  show ?case
  proof
    assume a: "Construct_operands (t # rest) operandList fl = (Inr ol, fl')"
    obtain r fl1 where c: "ConstructOperandListHelper t fl = (r, fl1)"
      by (cases "ConstructOperandListHelper t fl")
    from a c obtain opernd where r: "r = Inr opernd"
      by (cases r) auto
    from a c r have b: "Construct_operands rest (operandList @ [opernd]) fl1 = (Inr ol, fl')"
      by simp
    from 6(1)[of opernd fl1] c r
    have s1: "fst ` set fl1 = fst ` set fl \<union> fieldNames t"
      and d1: "distinct (map fst fl) \<longrightarrow> distinct (map fst fl1)" by simp_all
    from 6(2)[OF c[unfolded r, symmetric] refl, of ol fl'] b
    have s2: "fst ` set fl' = fst ` set fl1 \<union> \<Union> (set (map fieldNames rest))"
      and d2: "distinct (map fst fl1) \<longrightarrow> distinct (map fst fl')" by simp_all
    from s1 s2 have "fst ` set fl' = fst ` set fl \<union> \<Union> (set (map fieldNames (t # rest)))"
      by (simp add: Un_assoc)
    with d1 d2 show "fst ` set fl' = fst ` set fl \<union> \<Union> (set (map fieldNames (t # rest)))
       \<and> (distinct (map fst fl) \<longrightarrow> distinct (map fst fl'))" by simp
  qed
qed

lemma Construct_decoded:
  "decoded t \<longrightarrow> (\<exists>opd fl'. ConstructOperandListHelper t fl = (Inr opd, fl'))"
  "list_all decoded ts \<longrightarrow> (\<exists>ol fl'. Construct_operands ts acc fl = (Inr ol, fl'))"
proof (induction t fl and ts acc fl rule: ConstructOperandListHelper_Construct_operands.induct)
  case (1 opr parseOperands fl)
  show ?case
  proof
    assume "decoded (Term_TermOperand opr parseOperands)"
    with 1 obtain ol fl' where "Construct_operands parseOperands [] fl = (Inr ol, fl')"
      by auto
    then show "\<exists>opd fl'. ConstructOperandListHelper (Term_TermOperand opr parseOperands) fl = (Inr opd, fl')"
      by simp
  qed
next
  case (6 t rest operandList fl)
  show ?case
  proof
    assume d: "list_all decoded (t # rest)"
    with 6(1) obtain opernd fl1 where c: "ConstructOperandListHelper t fl = (Inr opernd, fl1)"
      by auto
    from 6(2)[OF c[symmetric] refl] d
    obtain ol fl' where "Construct_operands rest (operandList @ [opernd]) fl1 = (Inr ol, fl')"
      by auto
    with c show "\<exists>ol fl'. Construct_operands (t # rest) operandList fl = (Inr ol, fl')"
      by simp
  qed
qed simp_all


lemma length_card_fst:
  "distinct (map fst fl) \<Longrightarrow> length fl = card (fst ` set fl)"
  by (metis distinct_card length_map set_map)

lemma Construct_count:
  assumes "ConstructOperandListHelper t [] = (Inr opd, fl)"
  shows "length fl = card (fieldNames t)"
proof -
  from Construct_fields(1)[of t "[]" opd fl] assms
  have "fst ` set fl = fieldNames t" and "distinct (map fst fl)" by auto
  then show ?thesis using length_card_fst by metis
qed

text \<open>
  C5. Registration through \<open>CreateRule\<close> (construction, then \<open>SaveRuleToRegister\<close>):
  when it succeeds, the field names the rule tree refers to are exactly one; and a
  decoded tree that refers to no field name or to two or more is rejected with the
  more-than-one-field-name error of the rule, the registry unchanged. Nothing is
  assumed of the tree's depth or operators.
\<close>

theorem CreateRule_single_field:
  "(CreateRule (Inr r) reg = (None, reg') \<longrightarrow> card (fieldNames (RuleContent r)) = 1)
   \<and> (decoded (RuleContent r) \<and> card (fieldNames (RuleContent r)) \<noteq> 1
        \<longrightarrow> CreateRule (Inr r) reg = (Some (MoreThanOneFieldName (Name r)), reg))"
proof (intro conjI impI)
  assume ok: "CreateRule (Inr r) reg = (None, reg')"
  obtain res fl where c: "ConstructOperandListHelper (RuleContent r) [] = (res, fl)"
    by (cases "ConstructOperandListHelper (RuleContent r) []")
  show "card (fieldNames (RuleContent r)) = 1"
  proof (cases res)
    case (Inl e)
    with ok c show ?thesis by (simp add: CreateRule_def)
  next
    case (Inr operd)
    with c have n: "length fl = card (fieldNames (RuleContent r))"
      by (simp add: Construct_count)
    from ok c Inr have "SaveRuleToRegister (Some operd) (Name r) fl reg = (None, reg')"
      by (simp add: CreateRule_def)
    then have "length fl = 1"
      by (auto simp: SaveRuleToRegister_def Let_def split: if_splits)
    with n show ?thesis by simp
  qed
next
  assume h: "decoded (RuleContent r) \<and> card (fieldNames (RuleContent r)) \<noteq> 1"
  then obtain operd fl where c: "ConstructOperandListHelper (RuleContent r) [] = (Inr operd, fl)"
    using Construct_decoded(1) by blast
  then have "length fl = card (fieldNames (RuleContent r))" by (rule Construct_count)
  with h have "length fl \<noteq> 1" by simp
  with c show "CreateRule (Inr r) reg = (Some (MoreThanOneFieldName (Name r)), reg)"
    by (simp add: CreateRule_def SaveRuleToRegister_def Let_def)
qed

text \<open>
  The theorem at \<open>GREATER_THAN(LENGTH(username), "6")\<close>, which registers, and at
  \<open>OR(EQUAL_TO(password, confirm), "x")\<close>, whose two fields are two levels down.
\<close>

theorem CreateRule_single_field_witness:
  "CreateRule (Inr \<lparr>Name = ''username_length'',
       RuleContent = Term_TermOperand ''GREATER_THAN''
         [Term_TermOperand ''LENGTH'' [Term_FieldOperand ''username''], Term_ValueOperand ''6'']\<rparr>) []
     = (None, [(''username'', [(''username_length'',
          Some (TermOperand ''GREATER_THAN'' [TermOperand ''LENGTH'' [FieldOperand ''username''], ValueOperand ''6'']))])])
   \<and> card (fieldNames (Term_TermOperand ''GREATER_THAN''
         [Term_TermOperand ''LENGTH'' [Term_FieldOperand ''username''], Term_ValueOperand ''6''])) = 1
   \<and> decoded (Term_TermOperand ''OR''
         [Term_TermOperand ''EQUAL_TO'' [Term_FieldOperand ''password'', Term_FieldOperand ''confirm''],
          Term_ValueOperand ''x''])
   \<and> card (fieldNames (Term_TermOperand ''OR''
         [Term_TermOperand ''EQUAL_TO'' [Term_FieldOperand ''password'', Term_FieldOperand ''confirm''],
          Term_ValueOperand ''x''])) = 2
   \<and> CreateRule (Inr \<lparr>Name = ''same_password'',
       RuleContent = Term_TermOperand ''OR''
         [Term_TermOperand ''EQUAL_TO'' [Term_FieldOperand ''password'', Term_FieldOperand ''confirm''],
          Term_ValueOperand ''x'']\<rparr>) []
     = (Some (MoreThanOneFieldName ''same_password''), [])"
proof -
  let ?t1 = "Term_TermOperand ''GREATER_THAN''
         [Term_TermOperand ''LENGTH'' [Term_FieldOperand ''username''], Term_ValueOperand ''6'']"
  let ?r1 = "\<lparr>Name = ''username_length'', RuleContent = ?t1\<rparr>"
  let ?reg1 = "[(''username'', [(''username_length'',
          Some (TermOperand ''GREATER_THAN'' [TermOperand ''LENGTH'' [FieldOperand ''username''], ValueOperand ''6'']))])]"
  let ?t2 = "Term_TermOperand ''OR''
         [Term_TermOperand ''EQUAL_TO'' [Term_FieldOperand ''password'', Term_FieldOperand ''confirm''],
          Term_ValueOperand ''x'']"
  let ?r2 = "\<lparr>Name = ''same_password'', RuleContent = ?t2\<rparr>"
  have a: "CreateRule (Inr ?r1) [] = (None, ?reg1)"
    by (simp add: CreateRule_def SaveRuleToRegister_def)
  have b: "decoded ?t2" by simp
  have c: "card (fieldNames ?t2) = 2" by simp
  from CreateRule_single_field [of ?r1 "[]" ?reg1] a
  have d: "card (fieldNames ?t1) = 1" by simp
  from CreateRule_single_field [of ?r2 "[]"] b c
  have e: "CreateRule (Inr ?r2) [] = (Some (MoreThanOneFieldName ''same_password''), [])" by simp
  from a b c d e show ?thesis by blast
qed

lemma Save_duplicate:
  assumes "lookupRule reg f n = Some old"
  shows "SaveRuleToRegister rule n [(f, c)] reg = (Some (DuplicatedRuleName n f), reg)"
  using assms by (auto simp: SaveRuleToRegister_def lookupRule_def split: option.splits)

lemma Save_fresh:
  assumes "lookupRule reg f n = None"
  shows "\<exists>reg'. SaveRuleToRegister rule n [(f, c)] reg = (None, reg')
           \<and> lookupRule reg' f n = Some rule
           \<and> (\<forall>f' n'. (f', n') \<noteq> (f, n) \<longrightarrow> lookupRule reg' f' n' = lookupRule reg f' n')"
proof (cases "map_of reg f")
  case None
  then have "SaveRuleToRegister rule n [(f, c)] reg = (None, AList.update f [(n, rule)] reg)"
    by (simp add: SaveRuleToRegister_def)
  moreover have "lookupRule (AList.update f [(n, rule)] reg) f n = Some rule"
    by (simp add: lookupRule_def update_conv')
  moreover have "\<forall>f' n'. (f', n') \<noteq> (f, n) \<longrightarrow>
      lookupRule (AList.update f [(n, rule)] reg) f' n' = lookupRule reg f' n'"
    using None by (auto simp: lookupRule_def update_conv')
  ultimately show ?thesis by blast
next
  case (Some rs)
  with assms have fresh: "map_of rs n = None" by (simp add: lookupRule_def)
  with Some have "SaveRuleToRegister rule n [(f, c)] reg
      = (None, AList.update f (AList.update n rule rs) reg)"
    by (simp add: SaveRuleToRegister_def)
  moreover have "lookupRule (AList.update f (AList.update n rule rs) reg) f n = Some rule"
    by (simp add: lookupRule_def update_conv')
  moreover have "\<forall>f' n'. (f', n') \<noteq> (f, n) \<longrightarrow>
      lookupRule (AList.update f (AList.update n rule rs) reg) f' n' = lookupRule reg f' n'"
    using Some by (auto simp: lookupRule_def update_conv')
  ultimately show ?thesis by blast
qed

lemma Save_new_bucket:
  assumes "map_of reg f = None"
  shows "SaveRuleToRegister rule n [(f, c)] reg = (None, AList.update f [(n, rule)] reg)"
    and "map_of (AList.update f [(n, rule)] reg) f = Some [(n, rule)]"
  using assms by (simp_all add: SaveRuleToRegister_def update_conv')

text \<open>
  A call of \<open>SaveRuleToRegister\<close> that runs alone, for a rule bound to the one field
  \<open>f\<close>: when the rule name is already registered under \<open>f\<close>, the result is the
  duplicated-rule-name error and the registry is unchanged. When the rule name is
  registered under another field \<open>g\<close> and not yet under \<open>f\<close>, it succeeds, the rule is
  found under \<open>f\<close>, the rule under \<open>g\<close> is still there and every other entry of the
  registry is as before. When \<open>f\<close> has no bucket, the registry gets the bucket with
  just this rule.
\<close>

lemma SaveRuleToRegister_alone_duplicate_or_insert:
  "(lookupRule reg f n = Some old
      \<longrightarrow> SaveRuleToRegister rule n [(f, c)] reg = (Some (DuplicatedRuleName n f), reg))
   \<and> (lookupRule reg g n = Some old \<and> f \<noteq> g \<and> lookupRule reg f n = None
      \<longrightarrow> (\<exists>reg'. SaveRuleToRegister rule n [(f, c)] reg = (None, reg')
             \<and> lookupRule reg' f n = Some rule
             \<and> lookupRule reg' g n = Some old
             \<and> (\<forall>f' n'. (f', n') \<noteq> (f, n) \<longrightarrow> lookupRule reg' f' n' = lookupRule reg f' n')))
   \<and> (map_of reg f = None
      \<longrightarrow> SaveRuleToRegister rule n [(f, c)] reg = (None, AList.update f [(n, rule)] reg)
          \<and> map_of (AList.update f [(n, rule)] reg) f = Some [(n, rule)])"
proof (intro conjI impI)
  assume "lookupRule reg f n = Some old"
  then show "SaveRuleToRegister rule n [(f, c)] reg = (Some (DuplicatedRuleName n f), reg)"
    by (rule Save_duplicate)
next
  assume h: "lookupRule reg g n = Some old \<and> f \<noteq> g \<and> lookupRule reg f n = None"
  then obtain reg' where s: "SaveRuleToRegister rule n [(f, c)] reg = (None, reg')"
    and i: "lookupRule reg' f n = Some rule"
    and u: "\<forall>f' n'. (f', n') \<noteq> (f, n) \<longrightarrow> lookupRule reg' f' n' = lookupRule reg f' n'"
    using Save_fresh[of reg f n rule c] by blast
  from u h have "lookupRule reg' g n = Some old" by auto
  with s i u show "\<exists>reg'. SaveRuleToRegister rule n [(f, c)] reg = (None, reg')
             \<and> lookupRule reg' f n = Some rule
             \<and> lookupRule reg' g n = Some old
             \<and> (\<forall>f' n'. (f', n') \<noteq> (f, n) \<longrightarrow> lookupRule reg' f' n' = lookupRule reg f' n')"
    by blast
next
  assume "map_of reg f = None"
  then show "SaveRuleToRegister rule n [(f, c)] reg = (None, AList.update f [(n, rule)] reg)"
    by (rule Save_new_bucket(1))
next
  assume "map_of reg f = None"
  then show "map_of (AList.update f [(n, rule)] reg) f = Some [(n, rule)]"
    by (rule Save_new_bucket(2))
qed

text \<open>
  On a registry with \<open>min_length\<close> under \<open>password\<close>: registering \<open>min_length\<close> under
  \<open>password\<close> again, and under \<open>username\<close>.
\<close>

lemma SaveRuleToRegister_alone_example:
  "lookupRule [(''password'', [(''min_length'', Some (FieldOperand ''password''))])] ''password'' ''min_length''
     = Some (Some (FieldOperand ''password''))
   \<and> SaveRuleToRegister (Some (ValueOperand ''x'')) ''min_length'' [(''password'', 1)]
        [(''password'', [(''min_length'', Some (FieldOperand ''password''))])]
     = (Some (DuplicatedRuleName ''min_length'' ''password''),
        [(''password'', [(''min_length'', Some (FieldOperand ''password''))])])
   \<and> lookupRule [(''password'', [(''min_length'', Some (FieldOperand ''password''))])] ''username'' ''min_length'' = None
   \<and> (\<exists>reg'. SaveRuleToRegister (Some (ValueOperand ''x'')) ''min_length'' [(''username'', 1)]
                [(''password'', [(''min_length'', Some (FieldOperand ''password''))])] = (None, reg')
          \<and> lookupRule reg' ''username'' ''min_length'' = Some (Some (ValueOperand ''x''))
          \<and> lookupRule reg' ''password'' ''min_length'' = Some (Some (FieldOperand ''password'')))
   \<and> map_of [(''password'', [(''min_length'', Some (FieldOperand ''password''))])] ''username'' = None
   \<and> SaveRuleToRegister (Some (ValueOperand ''x'')) ''min_length'' [(''username'', 1)]
        [(''password'', [(''min_length'', Some (FieldOperand ''password''))])]
     = (None, [(''password'', [(''min_length'', Some (FieldOperand ''password''))]),
               (''username'', [(''min_length'', Some (ValueOperand ''x''))])])"
proof -
  let ?old = "Some (FieldOperand ''password'')"
  let ?new = "Some (ValueOperand ''x'')"
  let ?reg = "[(''password'', [(''min_length'', ?old)])]"
  have a: "lookupRule ?reg ''password'' ''min_length'' = Some ?old"
    by (simp add: lookupRule_def)
  have b: "''username'' \<noteq> ''password'' \<and> lookupRule ?reg ''username'' ''min_length'' = None"
    by (simp add: lookupRule_def)
  have c: "map_of ?reg ''username'' = None" by simp
  note t1 = SaveRuleToRegister_alone_duplicate_or_insert
      [of ?reg "''password''" "''min_length''" ?old ?new 1 "''password''"]
  note t2 = SaveRuleToRegister_alone_duplicate_or_insert
      [of ?reg "''username''" "''min_length''" ?old ?new 1 "''password''"]
  from t1 a have d: "SaveRuleToRegister ?new ''min_length'' [(''password'', 1)] ?reg
      = (Some (DuplicatedRuleName ''min_length'' ''password''), ?reg)" by blast
  from t2 a b have e: "\<exists>reg'. SaveRuleToRegister ?new ''min_length'' [(''username'', 1)] ?reg = (None, reg')
          \<and> lookupRule reg' ''username'' ''min_length'' = Some ?new
          \<and> lookupRule reg' ''password'' ''min_length'' = Some ?old" by blast
  from t2 c have f: "SaveRuleToRegister ?new ''min_length'' [(''username'', 1)] ?reg
      = (None, AList.update ''username'' [(''min_length'', ?new)] ?reg)" by blast
  then have g: "SaveRuleToRegister ?new ''min_length'' [(''username'', 1)] ?reg
      = (None, [(''password'', [(''min_length'', ?old)]), (''username'', [(''min_length'', ?new)])])"
    by simp
  from a b c d e g show ?thesis by blast
qed

text \<open>
  The three steps of a call, taken with nothing in between on a store that is in
  order, return what \<open>SaveRuleToRegister\<close> returns on the store's registry and leave
  the store of the registry it returns; and every step keeps the store in order.
\<close>

lemma map_update_fresh:
  "map (\<lambda>(g, a). (g, h a)) (AList.update f x t) = AList.update f (h x) (map (\<lambda>(g, a). (g, h a)) t)"
  by (induction t) auto

lemma map_heap_fresh:
  assumes "list_all (\<lambda>(f, a). a \<noteq> b) t"
  shows "map (\<lambda>(g, a). (g, (h(b := v)) a)) t = map (\<lambda>(g, a). (g, h a)) t"
  using assms by (induction t) auto

lemma map_of_registry:
  "map_of (map (\<lambda>(g, a). (g, h a)) t) f = map_option h (map_of t f)"
  by (induction t) auto

lemma map_of_snd_mem: "map_of t f = Some a \<Longrightarrow> a \<in> snd ` set t"
  by (induction t) (auto split: if_splits)

lemma map_heap_update:
  assumes "map_of t f = Some a" and "distinct (map snd t)"
  shows "map (\<lambda>(g, b). (g, (h(a := v)) b)) t = AList.update f v (map (\<lambda>(g, b). (g, h b)) t)"
  using assms
proof (induction t)
  case Nil
  then show ?case by simp
next
  case (Cons p t)
  obtain g b where p: "p = (g, b)" by (cases p)
  show ?case
  proof (cases "g = f")
    case True
    with Cons.prems p have ba: "b = a" by simp
    from Cons.prems p ba have "a \<notin> snd ` set t" by auto
    then have "list_all (\<lambda>(f, c). c \<noteq> a) t" by (force simp: list_all_iff)
    then have "map (\<lambda>(g, b). (g, (h(a := v)) b)) t = map (\<lambda>(g, b). (g, h b)) t"
      by (rule map_heap_fresh)
    with True p ba show ?thesis by simp
  next
    case False
    with Cons.prems p have m: "map_of t f = Some a" by simp
    then have "a \<in> snd ` set t" by (rule map_of_snd_mem)
    with Cons.prems p have "b \<noteq> a" by auto
    moreover from Cons.prems have "distinct (map snd t)" by simp
    ultimately show ?thesis using Cons.IH[OF m] False p by simp
  qed
qed

lemma SaveRuleToRegister_alone_atomic:
  assumes ok: "storeOk s"
  shows "\<exists>s'. SaveRuleToRegister_alone rule ruleName fl s
            = (SaveReturned (fst (SaveRuleToRegister rule ruleName fl (registryOf s))), s')
          \<and> registryOf s' = snd (SaveRuleToRegister rule ruleName fl (registryOf s))"
proof (cases "length fl = 1")
  case False
  then show ?thesis
    by (simp add: SaveRuleToRegister_alone_def SaveRuleToRegister_step_def SaveRuleToRegister_def)
next
  case True
  define f where "f = fst (last fl)"
  from True have ne: "fl \<noteq> []" by auto
  show ?thesis
  proof (cases "map_of (fieldBuckets s) f")
    case None
    then have r: "map_of (registryOf s) f = None"
      by (simp add: registryOf_def map_of_registry)
    define h' where "h' = (bucketAt s)(nextBucket s := [(ruleName, rule)])"
    let ?s' = "s\<lparr>fieldBuckets := AList.update f (nextBucket s) (fieldBuckets s),
                  bucketAt := h', nextBucket := Suc (nextBucket s)\<rparr>"
    from ok have "list_all (\<lambda>(f, a). a \<noteq> nextBucket s) (fieldBuckets s)"
      by (auto simp: storeOk_def list_all_iff)
    then have same: "map (\<lambda>(g, a). (g, h' a)) (fieldBuckets s)
        = map (\<lambda>(g, a). (g, bucketAt s a)) (fieldBuckets s)"
      unfolding h'_def by (rule map_heap_fresh)
    have "registryOf ?s' = map (\<lambda>(g, a). (g, h' a)) (AList.update f (nextBucket s) (fieldBuckets s))"
      by (simp add: registryOf_def)
    also have "\<dots> = AList.update f (h' (nextBucket s)) (map (\<lambda>(g, a). (g, h' a)) (fieldBuckets s))"
      by (rule map_update_fresh)
    also have "\<dots> = AList.update f [(ruleName, rule)] (registryOf s)"
      unfolding same by (simp add: registryOf_def h'_def)
    finally have "registryOf ?s' = AList.update f [(ruleName, rule)] (registryOf s)" .
    with True ne None r show ?thesis
      by (simp add: SaveRuleToRegister_alone_def SaveRuleToRegister_step_def SaveRuleToRegister_def f_def h'_def)
  next
    case (Some a)
    then have r: "map_of (registryOf s) f = Some (bucketAt s a)"
      by (simp add: registryOf_def map_of_registry)
    show ?thesis
    proof (cases "map_of (bucketAt s a) ruleName")
      case None
      let ?s' = "s\<lparr>bucketAt := (bucketAt s)(a := AList.update ruleName rule (bucketAt s a))\<rparr>"
      from ok have dist: "distinct (map snd (fieldBuckets s))" by (simp add: storeOk_def)
      have "registryOf ?s' = map (\<lambda>(g, b). (g, ((bucketAt s)(a := AList.update ruleName rule (bucketAt s a))) b)) (fieldBuckets s)"
        by (simp add: registryOf_def)
      also have "\<dots> = AList.update f (AList.update ruleName rule (bucketAt s a)) (map (\<lambda>(g, b). (g, bucketAt s b)) (fieldBuckets s))"
        using \<open>map_of (fieldBuckets s) f = Some a\<close> dist by (rule map_heap_update)
      finally have "registryOf ?s' = AList.update f (AList.update ruleName rule (bucketAt s a)) (registryOf s)"
        by (simp add: registryOf_def)
      with True ne Some None r show ?thesis
        by (simp add: SaveRuleToRegister_alone_def SaveRuleToRegister_step_def SaveRuleToRegister_def f_def)
    next
      case (Some old)
      with True ne \<open>map_of (fieldBuckets s) f = Some a\<close> r show ?thesis
        by (simp add: SaveRuleToRegister_alone_def SaveRuleToRegister_step_def SaveRuleToRegister_def f_def)
    qed
  qed
qed

lemma update_snd_subset:
  "snd ` set (AList.update f x t) \<subseteq> insert x (snd ` set t)"
  by (induction t) auto

lemma update_snd_distinct:
  assumes "distinct (map snd t)" and "x \<notin> snd ` set t"
  shows "distinct (map snd (AList.update f x t))"
  using assms
proof (induction t)
  case Nil
  then show ?case by simp
next
  case (Cons p t)
  obtain g b where p: "p = (g, b)" by (cases p)
  show ?case
  proof (cases "g = f")
    case True
    with Cons.prems p show ?thesis by simp
  next
    case False
    from Cons.prems p have "b \<noteq> x" and "b \<notin> snd ` set t" by auto
    with update_snd_subset[of f x t] have "b \<notin> snd ` set (AList.update f x t)" by auto
    with Cons False p show ?thesis by simp
  qed
qed

lemma SaveRuleToRegister_step_storeOk:
  assumes ok: "storeOk s" and step: "SaveRuleToRegister_step rule ruleName fl pc s = (pc', s')"
  shows "storeOk s'"
proof (cases pc)
  case SaveStart
  with assms show ?thesis by (auto simp: SaveRuleToRegister_step_def Let_def split: if_splits)
next
  case (SaveChecked f rs)
  with assms show ?thesis by (auto simp: SaveRuleToRegister_step_def split: option.splits)
next
  case (SaveWriting f rs)
  show ?thesis
  proof (cases rs)
    case None
    with SaveWriting step have s': "s' = s\<lparr>fieldBuckets := AList.update f (nextBucket s) (fieldBuckets s),
                  bucketAt := (bucketAt s)(nextBucket s := [(ruleName, rule)]),
                  nextBucket := Suc (nextBucket s)\<rparr>"
      by (simp add: SaveRuleToRegister_step_def)
    from ok have fresh: "nextBucket s \<notin> snd ` set (fieldBuckets s)"
      and below: "\<forall>a \<in> snd ` set (fieldBuckets s). a < nextBucket s"
      and dist: "distinct (map snd (fieldBuckets s))"
      by (auto simp: storeOk_def list_all_iff)
    from dist fresh have d: "distinct (map snd (AList.update f (nextBucket s) (fieldBuckets s)))"
      by (rule update_snd_distinct)
    from below update_snd_subset[of f "nextBucket s" "fieldBuckets s"]
    have "\<forall>a \<in> snd ` set (AList.update f (nextBucket s) (fieldBuckets s)). a < Suc (nextBucket s)"
      by (metis insert_iff less_Suc_eq subsetD)
    then have "list_all (\<lambda>(f, a). a < Suc (nextBucket s)) (AList.update f (nextBucket s) (fieldBuckets s))"
      by (force simp: list_all_iff)
    with d s' show ?thesis by (simp add: storeOk_def)
  next
    case (Some a)
    with SaveWriting assms show ?thesis by (auto simp: SaveRuleToRegister_step_def storeOk_def)
  qed
next
  case (SaveReturned e)
  with assms show ?thesis by (auto simp: SaveRuleToRegister_step_def)
qed

text \<open>
  C6 at its failing inputs: calls that overlap. (1) Two calls register \<open>min_length\<close>
  under \<open>password\<close>, from the empty registry; each makes its locked read before the
  other writes. Both return no error, and the registry holds the rule of the call
  that wrote last: the second registration of the name did not fail. Taken one after
  the other, the second call gets the duplicated-rule-name error. (2) \<open>min_length\<close>
  is registered under \<open>email\<close>. Three calls then register under \<open>password\<close>, which has
  no bucket: \<open>has_digit\<close>, \<open>has_upper\<close> and \<open>min_length\<close>. The first two read that there
  is no bucket; the second writes its new bucket; the third reads that bucket; the
  first writes its own new bucket over it; the third tests and writes into the bucket
  it read. All three return no error, and the registry holds only \<open>has_digit\<close> under
  \<open>password\<close>: \<open>min_length\<close>, registered under a different field than the one it was
  under, is reported registered and is not in the registry.
\<close>

theorem SaveRuleToRegister_overlapping_calls:
  "fst (runSteps
     [\<lparr>callRule = Some (FieldOperand ''password''), callRuleName = ''min_length'', callFieldList = [(''password'', 1)]\<rparr>,
      \<lparr>callRule = Some (ValueOperand ''x''), callRuleName = ''min_length'', callFieldList = [(''password'', 1)]\<rparr>]
     [0, 1, 0, 1, 0, 1] [SaveStart, SaveStart] emptyStore)
     = [SaveReturned None, SaveReturned None]
   \<and> registryOf (snd (runSteps
     [\<lparr>callRule = Some (FieldOperand ''password''), callRuleName = ''min_length'', callFieldList = [(''password'', 1)]\<rparr>,
      \<lparr>callRule = Some (ValueOperand ''x''), callRuleName = ''min_length'', callFieldList = [(''password'', 1)]\<rparr>]
     [0, 1, 0, 1, 0, 1] [SaveStart, SaveStart] emptyStore))
     = [(''password'', [(''min_length'', Some (ValueOperand ''x''))])]
   \<and> fst (runSteps
     [\<lparr>callRule = Some (FieldOperand ''password''), callRuleName = ''min_length'', callFieldList = [(''password'', 1)]\<rparr>,
      \<lparr>callRule = Some (ValueOperand ''x''), callRuleName = ''min_length'', callFieldList = [(''password'', 1)]\<rparr>]
     [0, 0, 0, 1, 1, 1] [SaveStart, SaveStart] emptyStore)
     = [SaveReturned None, SaveReturned (Some (DuplicatedRuleName ''min_length'' ''password''))]
   \<and> fst (runSteps
     [\<lparr>callRule = Some (FieldOperand ''email''), callRuleName = ''min_length'', callFieldList = [(''email'', 1)]\<rparr>,
      \<lparr>callRule = Some (ValueOperand ''d''), callRuleName = ''has_digit'', callFieldList = [(''password'', 1)]\<rparr>,
      \<lparr>callRule = Some (ValueOperand ''u''), callRuleName = ''has_upper'', callFieldList = [(''password'', 1)]\<rparr>,
      \<lparr>callRule = Some (FieldOperand ''password''), callRuleName = ''min_length'', callFieldList = [(''password'', 1)]\<rparr>]
     [0, 0, 0, 1, 2, 2, 2, 3, 1, 1, 3, 3] [SaveStart, SaveStart, SaveStart, SaveStart] emptyStore)
     = [SaveReturned None, SaveReturned None, SaveReturned None, SaveReturned None]
   \<and> registryOf (snd (runSteps
     [\<lparr>callRule = Some (FieldOperand ''email''), callRuleName = ''min_length'', callFieldList = [(''email'', 1)]\<rparr>,
      \<lparr>callRule = Some (ValueOperand ''d''), callRuleName = ''has_digit'', callFieldList = [(''password'', 1)]\<rparr>,
      \<lparr>callRule = Some (ValueOperand ''u''), callRuleName = ''has_upper'', callFieldList = [(''password'', 1)]\<rparr>,
      \<lparr>callRule = Some (FieldOperand ''password''), callRuleName = ''min_length'', callFieldList = [(''password'', 1)]\<rparr>]
     [0, 0, 0, 1, 2, 2, 2, 3, 1, 1, 3, 3] [SaveStart, SaveStart, SaveStart, SaveStart] emptyStore))
     = [(''email'', [(''min_length'', Some (FieldOperand ''email''))]),
        (''password'', [(''has_digit'', Some (ValueOperand ''d''))])]"
  by (simp add: SaveRuleToRegister_step_def emptyStore_def registryOf_def Let_def)

text \<open>
  C3 at its failing input. A rule file whose entries are a rule on two fields, a rule
  on no field, an entry with no rule, a rule \<open>phone_set\<close>, a second rule \<open>phone_set\<close> on
  the same field and a rule \<open>zip_set\<close>: \<open>loadSystemRules\<close> returns no error, and the
  registry holds the first \<open>phone_set\<close> and \<open>zip_set\<close> (loading went on past the four
  rejected entries). \<open>CreateRule\<close> does report the error of the first entry. An entry
  whose decoding fails does end the load with its error.
\<close>

theorem loadSystemRules_ignores_rule_errors:
  "loadSystemRules
     \<lparr>openError = None, openBracketError = None,
      entries =
        [Inr \<lparr>Name = ''two_fields'',
              RuleContent = Term_TermOperand ''EQUAL_TO'' [Term_FieldOperand ''password'', Term_FieldOperand ''confirm'']\<rparr>,
         Inr \<lparr>Name = ''no_field'', RuleContent = Term_ValueOperand ''x''\<rparr>,
         Inr \<lparr>Name = ''no_rule'', RuleContent = Term_nil\<rparr>,
         Inr \<lparr>Name = ''phone_set'',
              RuleContent = Term_TermOperand ''GREATER_THAN'' [Term_TermOperand ''LENGTH'' [Term_FieldOperand ''phone''], Term_ValueOperand ''0'']\<rparr>,
         Inr \<lparr>Name = ''phone_set'',
              RuleContent = Term_TermOperand ''GREATER_THAN'' [Term_TermOperand ''LENGTH'' [Term_FieldOperand ''phone''], Term_ValueOperand ''9'']\<rparr>,
         Inr \<lparr>Name = ''zip_set'',
              RuleContent = Term_TermOperand ''GREATER_THAN'' [Term_TermOperand ''LENGTH'' [Term_FieldOperand ''zip''], Term_ValueOperand ''0'']\<rparr>],
      closeBracketError = None\<rparr> []
   = (None,
      [(''phone'', [(''phone_set'',
          Some (TermOperand ''GREATER_THAN'' [TermOperand ''LENGTH'' [FieldOperand ''phone''], ValueOperand ''0'']))]),
       (''zip'', [(''zip_set'',
          Some (TermOperand ''GREATER_THAN'' [TermOperand ''LENGTH'' [FieldOperand ''zip''], ValueOperand ''0'']))])])
   \<and> CreateRule
        (Inr \<lparr>Name = ''two_fields'',
              RuleContent = Term_TermOperand ''EQUAL_TO'' [Term_FieldOperand ''password'', Term_FieldOperand ''confirm'']\<rparr>) []
      = (Some (MoreThanOneFieldName ''two_fields''), [])
   \<and> loadSystemRules
        \<lparr>openError = None, openBracketError = None,
         entries = [Inl ParseRuleUnknownOperatorError, Inr \<lparr>Name = ''r'', RuleContent = Term_FieldOperand ''a''\<rparr>],
         closeBracketError = None\<rparr> []
      = (Some ParseRuleUnknownOperatorError, [])"
  by code_simp

section \<open>Properties of the input projector\<close>

text \<open>
  C4 at its failing input. The document \<open>{"a": {"b": {"s": "x"}}}\<close> is projected to
  the key \<open>a..b.s\<close>, with two dots after \<open>a\<close>: the prefix passed down already ends in
  a dot and \<open>parseInputJSON\<close> puts another one after it. One level of nesting gives
  the dotted key (\<open>address.zip_code\<close>); an object in a list under \<open>a\<close> behaves as the
  object itself.
\<close>

theorem parseInputJSON_double_dot:
  "parseInputJSON [] [] [(''a'', JObject [(''b'', JObject [(''s'', JString ''x'')])])]
     = (None, [(''a..b.s'', ''x'')])
   \<and> parseInputJSON [] [] [(''address'', JObject [(''zip_code'', JString ''90067'')])]
     = (None, [(''address.zip_code'', ''90067'')])
   \<and> parseInputJSON [] [] [(''a'', JArray [JObject [(''b'', JObject [(''s'', JString ''x'')])]])]
     = (None, [(''a..b.s'', ''x'')])"
  by (simp add: nestedPrefix_def)

section \<open>Properties of the evaluation engine\<close>

lemma evaluateContexts_step_panic:
  assumes "Rule cx = Some r" and "Evaluate rx cx r = Inr v" and "TypeOf v \<noteq> TBool"
  shows "\<exists>msg. evaluateContexts rx (cx # rest) res = Inl (Panic msg)"
  using assms by (cases v) simp_all

lemma evaluateContexts_cases:
  "(\<exists>msg. evaluateContexts rx (cx # rest) res = Inl (Panic msg))
   \<or> (\<exists>res'. evaluateContexts rx (cx # rest) res = evaluateContexts rx rest res')"
proof (cases "Rule cx")
  case None
  then show ?thesis by simp
next
  case (Some r)
  show ?thesis
  proof (cases "Evaluate rx cx r")
    case (Inl e)
    with Some show ?thesis by (cases e) auto
  next
    case (Inr v)
    with Some show ?thesis by (cases v) auto
  qed
qed

lemma evaluateContexts_panics:
  assumes "cx \<in> set ctxs" and "Rule cx = Some r" and "Evaluate rx cx r = Inr v" and "TypeOf v \<noteq> TBool"
  shows "\<exists>msg. evaluateContexts rx ctxs res = Inl (Panic msg)"
  using assms(1)
proof (induction ctxs arbitrary: res)
  case Nil
  then show ?case by simp
next
  case (Cons c cs)
  show ?case
  proof (cases "c = cx")
    case True
    with assms show ?thesis using evaluateContexts_step_panic by blast
  next
    case False
    with Cons.prems have "cx \<in> set cs" by simp
    with Cons.IH have ih: "\<And>res'. \<exists>msg. evaluateContexts rx cs res' = Inl (Panic msg)" by blast
    from evaluateContexts_cases[of rx c cs res] ih show ?thesis by metis
  qed
qed

lemma collectContexts_member:
  assumes "(k, v) \<in> set inputFields" and "map_of reg k = Some rs" and "(name, rule) \<in> set rs"
  shows "\<lparr>RuleName = name, FieldValue = v, Rule = rule\<rparr> \<in> set (collectContexts reg inputFields)"
  using assms unfolding collectContexts_def by force

lemma executor_panics:
  assumes "Rule ctx = Some r" and "Evaluate rx ctx r = Inr v" and "TypeOf v \<noteq> TBool"
  shows "\<exists>msg. createValidatorExecutor rx ctx data = Inl (Panic msg)"
  using assms by (cases v) (simp_all add: createValidatorExecutor_def)

text \<open>
  C10. When the input projects, a rule registered under one of its fields evaluates
  (on that field's value) to a value that is not a boolean, then
  \<open>ValidateInputJSONByRules\<close> panics; so does the executor that
  \<open>createValidatorExecutor\<close> builds for such a context. A root \<open>FieldOperand\<close> evaluates
  to the field value, a string, and a root \<open>LENGTH(field)\<close> to an integer; both rules
  are accepted by \<open>CreateRule\<close>.
\<close>

theorem non_boolean_root_panics:
  "(parseInputJSON [] [] input = (None, inputFields) \<and> (k, v) \<in> set inputFields
      \<and> map_of reg k = Some rs \<and> (name, Some rule) \<in> set rs
      \<and> Evaluate rx \<lparr>RuleName = name, FieldValue = v, Rule = Some rule\<rparr> rule = Inr res
      \<and> TypeOf res \<noteq> TBool
      \<longrightarrow> (\<exists>msg. ValidateInputJSONByRules rx reg input = Inl (Panic msg)))
   \<and> (Rule ctx = Some rule \<and> Evaluate rx ctx rule = Inr res \<and> TypeOf res \<noteq> TBool
      \<longrightarrow> (\<exists>msg. createValidatorExecutor rx ctx data = Inl (Panic msg)))
   \<and> Evaluate rx ctx (FieldOperand f) = Inr (VString (FieldValue ctx))
   \<and> Evaluate rx ctx (TermOperand LengthOperator [FieldOperand f])
        = Inr (VInt (int (length (FieldValue ctx))))
   \<and> CreateRule (Inr \<lparr>Name = n, RuleContent = Term_FieldOperand f\<rparr>) []
        = (None, [(f, [(n, Some (FieldOperand f))])])
   \<and> CreateRule (Inr \<lparr>Name = n, RuleContent = Term_TermOperand LengthOperator [Term_FieldOperand f]\<rparr>) []
        = (None, [(f, [(n, Some (TermOperand LengthOperator [FieldOperand f]))])])"
proof (intro conjI impI)
  assume h: "parseInputJSON [] [] input = (None, inputFields) \<and> (k, v) \<in> set inputFields
      \<and> map_of reg k = Some rs \<and> (name, Some rule) \<in> set rs
      \<and> Evaluate rx \<lparr>RuleName = name, FieldValue = v, Rule = Some rule\<rparr> rule = Inr res
      \<and> TypeOf res \<noteq> TBool"
  let ?cx = "\<lparr>RuleName = name, FieldValue = v, Rule = Some rule\<rparr>"
  from h have "?cx \<in> set (collectContexts reg inputFields)"
    using collectContexts_member by blast
  moreover have "Rule ?cx = Some rule" by simp
  ultimately have "\<exists>msg. evaluateContexts rx (collectContexts reg inputFields) \<lparr>flag = True, rules = []\<rparr>
      = Inl (Panic msg)"
    using h evaluateContexts_panics by blast
  with h show "\<exists>msg. ValidateInputJSONByRules rx reg input = Inl (Panic msg)"
    by (simp add: ValidateInputJSONByRules_def)
next
  assume "Rule ctx = Some rule \<and> Evaluate rx ctx rule = Inr res \<and> TypeOf res \<noteq> TBool"
  then show "\<exists>msg. createValidatorExecutor rx ctx data = Inl (Panic msg)"
    using executor_panics by blast
next
  show "Evaluate rx ctx (FieldOperand f) = Inr (VString (FieldValue ctx))"
    by (simp add: GetFieldValue_def)
next
  show "Evaluate rx ctx (TermOperand LengthOperator [FieldOperand f])
        = Inr (VInt (int (length (FieldValue ctx))))"
    by (simp add: GetFieldValue_def RegisteredOperators_def LengthOperatorFn_def)
next
  show "CreateRule (Inr \<lparr>Name = n, RuleContent = Term_FieldOperand f\<rparr>) []
        = (None, [(f, [(n, Some (FieldOperand f))])])"
    by (simp add: CreateRule_def SaveRuleToRegister_def)
next
  show "CreateRule (Inr \<lparr>Name = n, RuleContent = Term_TermOperand LengthOperator [Term_FieldOperand f]\<rparr>) []
        = (None, [(f, [(n, Some (TermOperand LengthOperator [FieldOperand f]))])])"
    by (simp add: CreateRule_def SaveRuleToRegister_def)
qed

text \<open>
  The theorem for the rule \<open>LENGTH(username)\<close> on the input \<open>{"username": "bill"}\<close>,
  and for the executor of a root \<open>FieldOperand\<close>.
\<close>

theorem non_boolean_root_panics_witness:
  "(\<exists>msg. ValidateInputJSONByRules (\<lambda>p s. Inr True)
        [(''username'', [(''username_length'', Some (TermOperand ''LENGTH'' [FieldOperand ''username'']))])]
        [(''username'', JString ''bill'')] = Inl (Panic msg))
   \<and> (\<exists>msg. createValidatorExecutor (\<lambda>p s. Inr True)
        \<lparr>RuleName = ''r'', FieldValue = ''bill'', Rule = Some (FieldOperand ''username'')\<rparr> 1 = Inl (Panic msg))"
proof -
  let ?rx = "\<lambda>p s. Inr True :: error + bool"
  let ?rule = "TermOperand ''LENGTH'' [FieldOperand ''username'']"
  let ?rs = "[(''username_length'', Some ?rule)]"
  let ?reg = "[(''username'', ?rs)]"
  let ?input = "[(''username'', JString ''bill'')]"
  let ?ctx = "\<lparr>RuleName = ''r'', FieldValue = ''bill'', Rule = Some (FieldOperand ''username'')\<rparr>"
  have a: "parseInputJSON [] [] ?input = (None, [(''username'', ''bill'')])
      \<and> (''username'', ''bill'') \<in> set [(''username'', ''bill'')]
      \<and> map_of ?reg ''username'' = Some ?rs \<and> (''username_length'', Some ?rule) \<in> set ?rs
      \<and> Evaluate ?rx \<lparr>RuleName = ''username_length'', FieldValue = ''bill'', Rule = Some ?rule\<rparr> ?rule = Inr (VInt 4)
      \<and> TypeOf (VInt 4) \<noteq> TBool"
    by (simp add: RegisteredOperators_def operator_names LengthOperatorFn_def GetFieldValue_def)
  have b: "Rule ?ctx = Some (FieldOperand ''username'')
      \<and> Evaluate ?rx ?ctx (FieldOperand ''username'') = Inr (VString ''bill'') \<and> TypeOf (VString ''bill'') \<noteq> TBool"
    by (simp add: GetFieldValue_def)
  from non_boolean_root_panics [of ?input "[(''username'', ''bill'')]" "''username''" "''bill''" ?reg ?rs
      "''username_length''" ?rule ?rx "VInt 4" ?ctx]
    a have c1: "\<exists>msg. ValidateInputJSONByRules ?rx ?reg ?input = Inl (Panic msg)" by blast
  from non_boolean_root_panics [of _ _ _ _ _ _ _ "FieldOperand ''username''" ?rx "VString ''bill''" ?ctx 1]
    b have c2: "\<exists>msg. createValidatorExecutor ?rx ?ctx 1 = Inl (Panic msg)" by blast
  from c1 c2 show ?thesis by blast
qed

subsection \<open>The two strategies\<close>

lemma evaluateContexts_bool:
  assumes "ruleResult rx cx = Inr (VBool b)"
  shows "evaluateContexts rx (cx # rest) res
     = evaluateContexts rx rest (if b then res else res\<lparr>flag := False, rules := rules res @ [RuleName cx]\<rparr>)"
  using assms by (cases "Rule cx") (auto simp: ruleResult_def)

lemma evaluateContexts_error:
  assumes "ruleResult rx cx = Inl e" and "\<forall>msg. e \<noteq> Panic msg"
  shows "evaluateContexts rx (cx # rest) res = evaluateContexts rx rest res"
  using assms by (cases "Rule cx"; cases e) (auto simp: ruleResult_def)

lemma executor_bool:
  assumes "ruleResult rx cx = Inr (VBool b)"
  shows "createValidatorExecutor rx cx data
     = Inr \<lparr>state_flag = b, state_rules = (if b then [] else [RuleName cx])\<rparr>"
  using assms by (cases "Rule cx") (auto simp: ruleResult_def createValidatorExecutor_def)

lemma executor_error:
  assumes "ruleResult rx cx = Inl e" and "\<forall>msg. e \<noteq> Panic msg"
  shows "createValidatorExecutor rx cx data = Inr \<lparr>state_flag = False, state_rules = []\<rparr>"
  using assms by (cases "Rule cx"; cases e) (auto simp: ruleResult_def createValidatorExecutor_def)

lemma evaluateContexts_cong:
  assumes "\<And>res. evaluateContexts rx xs res = evaluateContexts rx ys res"
  shows "evaluateContexts rx (c # xs) res = evaluateContexts rx (c # ys) res"
proof (cases "Rule c")
  case None
  then show ?thesis by simp
next
  case (Some r)
  show ?thesis
  proof (cases "Evaluate rx c r")
    case (Inl e)
    with Some assms show ?thesis by (cases e) simp_all
  next
    case (Inr v)
    with Some assms show ?thesis by (cases v) simp_all
  qed
qed

lemma sequential_skips_error_rule:
  assumes "ruleResult rx cx = Inl e" and "\<forall>msg. e \<noteq> Panic msg"
  shows "evaluateContexts rx (pre @ cx # post) res = evaluateContexts rx (pre @ post) res"
proof (induction pre arbitrary: res)
  case Nil
  show ?case using evaluateContexts_error[OF assms] by simp
next
  case (Cons c pre)
  then show ?case using evaluateContexts_cong[of rx "pre @ cx # post" "pre @ post" c res] by simp
qed

lemma evaluateContexts_all_bool:
  assumes "\<forall>c \<in> set ctxs. \<exists>b. ruleResult rx c = Inr (VBool b)"
  shows "evaluateContexts rx ctxs res
     = Inr \<lparr>flag = (flag res \<and> list_all (\<lambda>c. ruleResult rx c = Inr (VBool True)) ctxs),
            rules = rules res @ map RuleName (filter (\<lambda>c. ruleResult rx c \<noteq> Inr (VBool True)) ctxs)\<rparr>"
  using assms
proof (induction ctxs arbitrary: res)
  case Nil
  then show ?case by simp
next
  case (Cons c cs)
  then obtain b where b: "ruleResult rx c = Inr (VBool b)" by auto
  from Cons have ih: "\<And>res. evaluateContexts rx cs res
     = Inr \<lparr>flag = (flag res \<and> list_all (\<lambda>c. ruleResult rx c = Inr (VBool True)) cs),
            rules = rules res @ map RuleName (filter (\<lambda>c. ruleResult rx c \<noteq> Inr (VBool True)) cs)\<rparr>"
    by simp
  have step: "evaluateContexts rx (c # cs) res
     = evaluateContexts rx cs (if b then res else res\<lparr>flag := False, rules := rules res @ [RuleName c]\<rparr>)"
    by (rule evaluateContexts_bool[OF b])
  show ?case unfolding step
    by (cases b) (simp_all add: ih b)
qed

lemma reduceResults_all_states:
  "reduceResults (map Inr ss) init
     = Inr \<lparr>state_flag = (state_flag init \<and> list_all state_flag ss),
            state_rules = state_rules init @ concat (map state_rules ss)\<rparr>"
proof (induction ss arbitrary: init)
  case Nil
  then show ?case by simp
next
  case (Cons s ss)
  show ?case by (simp add: Cons CombineResult_def)
qed

lemma reduceResults_panic:
  assumes "Inl e \<in> set rs"
  shows "\<exists>e'. reduceResults rs init = Inl e'"
  using assms
proof (induction rs arbitrary: init)
  case Nil
  then show ?case by simp
next
  case (Cons r rs)
  then show ?case by (cases r) auto
qed

lemma mset_schedule:
  assumes "mset sched = mset [0..<length xs]"
  shows "mset (map (\<lambda>i. f (xs ! i)) sched) = mset (map f xs)"
proof -
  have "mset (map (\<lambda>i. f (xs ! i)) sched) = image_mset (\<lambda>i. f (xs ! i)) (mset sched)" by simp
  also have "\<dots> = image_mset (\<lambda>i. f (xs ! i)) (mset [0..<length xs])" using assms by simp
  also have "\<dots> = mset (map (\<lambda>i. f (xs ! i)) [0..<length xs])" by (simp del: mset_upt)
  also have "map (\<lambda>i. f (xs ! i)) [0..<length xs] = map f (map (\<lambda>i. xs ! i) [0..<length xs])" by simp
  also have "map (\<lambda>i. xs ! i) [0..<length xs] = xs" by (rule map_nth)
  finally show ?thesis .
qed

lemma schedule_in_range:
  assumes "mset sched = mset [0..<n]" and "i \<in> set sched"
  shows "i < n"
proof -
  from assms(1) have "set sched = set [0..<n]" by (rule mset_eq_setD)
  with assms(2) show ?thesis by simp
qed

lemma schedule_results:
  assumes "mset sched = mset [0..<length ctxs]"
  shows "map (\<lambda>i. (map (createValidatorExecutor rx) ctxs ! i) data) sched
     = map (\<lambda>i. createValidatorExecutor rx (ctxs ! i) data) sched"
  using schedule_in_range[OF assms] by simp

lemma mset_concat_perm:
  assumes "mset xss = mset yss"
  shows "mset (concat xss) = mset (concat yss)"
proof -
  have "mset (concat xss) = sum_mset (image_mset mset (mset xss))"
    by (simp add: mset_concat flip: sum_mset_sum_list)
  also have "\<dots> = sum_mset (image_mset mset (mset yss))" using assms by simp
  also have "\<dots> = mset (concat yss)"
    by (simp add: mset_concat flip: sum_mset_sum_list)
  finally show ?thesis .
qed

lemma list_all_perm:
  assumes "mset xs = mset ys"
  shows "list_all P xs = list_all P ys"
  using mset_eq_setD[OF assms] by (simp add: list_all_iff)

lemma strategies_agree_without_errors:
  assumes ok: "\<forall>c \<in> set ctxs. \<exists>b. ruleResult rx c = Inr (VBool b)"
    and sched: "mset sched = mset [0..<length ctxs]"
  shows "\<exists>fs fc. evaluateContexts rx ctxs \<lparr>flag = True, rules = []\<rparr> = Inr fs
     \<and> ExecutAppTask sched (map (createValidatorExecutor rx) ctxs) data \<lparr>state_flag = True, state_rules = []\<rparr> = Inr fc
     \<and> flag fs = state_flag fc \<and> mset (rules fs) = mset (state_rules fc)"
proof -
  let ?st = "\<lambda>c. \<lparr>state_flag = (ruleResult rx c = Inr (VBool True)),
                  state_rules = (if ruleResult rx c = Inr (VBool True) then [] else [RuleName c])\<rparr>"
  have ex: "\<And>c. c \<in> set ctxs \<Longrightarrow> createValidatorExecutor rx c data = Inr (?st c)"
  proof -
    fix c assume "c \<in> set ctxs"
    with ok obtain b where b: "ruleResult rx c = Inr (VBool b)" by auto
    show "createValidatorExecutor rx c data = Inr (?st c)"
      by (simp add: executor_bool[OF b] b)
  qed
  have inr: "\<And>i. i \<in> set sched \<Longrightarrow> createValidatorExecutor rx (ctxs ! i) data = Inr (?st (ctxs ! i))"
    using schedule_in_range[OF sched] ex by simp
  have res: "map (\<lambda>i. (map (createValidatorExecutor rx) ctxs ! i) data) sched
      = map Inr (map (\<lambda>i. ?st (ctxs ! i)) sched)"
    using schedule_results[OF sched, of rx data] inr by simp
  let ?ss = "map (\<lambda>i. ?st (ctxs ! i)) sched"
  have perm: "mset ?ss = mset (map ?st ctxs)" by (rule mset_schedule[OF sched])
  have conc: "ExecutAppTask sched (map (createValidatorExecutor rx) ctxs) data \<lparr>state_flag = True, state_rules = []\<rparr>
      = Inr \<lparr>state_flag = list_all state_flag ?ss, state_rules = concat (map state_rules ?ss)\<rparr>"
    unfolding ExecutAppTask_def res reduceResults_all_states by simp
  have seq: "evaluateContexts rx ctxs \<lparr>flag = True, rules = []\<rparr>
      = Inr \<lparr>flag = list_all (\<lambda>c. ruleResult rx c = Inr (VBool True)) ctxs,
             rules = map RuleName (filter (\<lambda>c. ruleResult rx c \<noteq> Inr (VBool True)) ctxs)\<rparr>"
    by (simp add: evaluateContexts_all_bool[OF ok])
  have f: "list_all state_flag ?ss = list_all state_flag (map ?st ctxs)"
    by (rule list_all_perm[OF perm])
  have f2: "list_all state_flag (map ?st ctxs) = list_all (\<lambda>c. ruleResult rx c = Inr (VBool True)) ctxs"
    by (simp add: list_all_iff)
  have "mset (map state_rules ?ss) = mset (map state_rules (map ?st ctxs))"
    using perm by (metis mset_map)
  then have r: "mset (concat (map state_rules ?ss)) = mset (concat (map state_rules (map ?st ctxs)))"
    by (rule mset_concat_perm)
  have r2: "concat (map state_rules (map ?st ctxs))
      = map RuleName (filter (\<lambda>c. ruleResult rx c \<noteq> Inr (VBool True)) ctxs)"
    by (induction ctxs) simp_all
  from conc seq f f2 r r2 show ?thesis by simp
qed

lemma concurrent_error_rule_clears_flag:
  assumes sched: "mset sched = mset [0..<length ctxs]"
    and nopanic: "\<forall>c \<in> set ctxs. \<forall>msg. ruleResult rx c \<noteq> Inl (Panic msg)"
    and bools: "\<forall>c \<in> set ctxs. \<forall>v. ruleResult rx c = Inr v \<longrightarrow> TypeOf v = TBool"
    and err: "cx \<in> set ctxs" "ruleResult rx cx = Inl e"
  shows "\<exists>fc. ExecutAppTask sched (map (createValidatorExecutor rx) ctxs) data init = Inr fc
     \<and> \<not> state_flag fc"
proof -
  have ex: "\<And>c. c \<in> set ctxs \<Longrightarrow> \<exists>s. createValidatorExecutor rx c data = Inr s"
  proof -
    fix c assume c: "c \<in> set ctxs"
    show "\<exists>s. createValidatorExecutor rx c data = Inr s"
    proof (cases "ruleResult rx c")
      case (Inl e')
      with nopanic c have "\<forall>msg. e' \<noteq> Panic msg" by auto
      with Inl show ?thesis by (simp add: executor_error)
    next
      case (Inr v)
      with bools c have "TypeOf v = TBool" by auto
      then obtain b where "v = VBool b" by (cases v) auto
      with Inr show ?thesis by (simp add: executor_bool)
    qed
  qed
  define st where "st = (\<lambda>c. projr (createValidatorExecutor rx c data))"
  have st: "\<And>c. c \<in> set ctxs \<Longrightarrow> createValidatorExecutor rx c data = Inr (st c)"
    using ex unfolding st_def by force
  have inr: "\<And>i. i \<in> set sched \<Longrightarrow> createValidatorExecutor rx (ctxs ! i) data = Inr (st (ctxs ! i))"
    using schedule_in_range[OF sched] st by simp
  let ?ss = "map (\<lambda>i. st (ctxs ! i)) sched"
  have res: "map (\<lambda>i. (map (createValidatorExecutor rx) ctxs ! i) data) sched = map Inr ?ss"
    using schedule_results[OF sched, of rx data] inr by simp
  have perm: "mset ?ss = mset (map st ctxs)" by (rule mset_schedule[OF sched])
  from err nopanic have "\<forall>msg. e \<noteq> Panic msg" by auto
  with err have "createValidatorExecutor rx cx data = Inr \<lparr>state_flag = False, state_rules = []\<rparr>"
    by (simp add: executor_error)
  with st[OF err(1)] have "st cx = \<lparr>state_flag = False, state_rules = []\<rparr>"
    by (metis sum.inject(2))
  then have "\<not> state_flag (st cx)" by simp
  with err(1) have "\<not> list_all state_flag (map st ctxs)" by (auto simp: list_all_iff)
  with list_all_perm[OF perm] have "\<not> list_all state_flag ?ss" by simp
  then show ?thesis unfolding ExecutAppTask_def res reduceResults_all_states by simp
qed

lemma CombineResult_flag:
  "state_flag (CombineResult s r) = (state_flag s \<and> state_flag r)"
  by (simp add: CombineResult_def)

text \<open>
  C1 at its failing input. The rule \<open>age_min\<close>, \<open>GREATER_THAN(age, "17")\<close>, registers;
  on the field value \<open>"abc"\<close> its evaluation returns the error of \<open>strconv.Atoi\<close>. On
  the input \<open>{"age": "abc"}\<close> the sequential engine returns passed with no violated
  rule, and the concurrent one (a single task, a single schedule) returns not passed
  with no violated rule. Without such errors the two agree under every schedule:
  lemma \<open>strategies_agree_without_errors\<close>.
\<close>

theorem strategies_differ_on_rule_error:
  "CreateRule (Inr \<lparr>Name = ''age_min'',
       RuleContent = Term_TermOperand ''GREATER_THAN'' [Term_FieldOperand ''age'', Term_ValueOperand ''17'']\<rparr>) []
     = (None, [(''age'', [(''age_min'', Some (TermOperand ''GREATER_THAN'' [FieldOperand ''age'', ValueOperand ''17'']))])])
   \<and> Evaluate rx \<lparr>RuleName = ''age_min'', FieldValue = ''abc'', Rule = Some (TermOperand ''GREATER_THAN'' [FieldOperand ''age'', ValueOperand ''17''])\<rparr>
        (TermOperand ''GREATER_THAN'' [FieldOperand ''age'', ValueOperand ''17'']) = Inl (AtoiSyntaxError ''abc'')
   \<and> ValidateInputJSONByRules rx
        [(''age'', [(''age_min'', Some (TermOperand ''GREATER_THAN'' [FieldOperand ''age'', ValueOperand ''17'']))])]
        [(''age'', JString ''abc'')]
      = Inr \<lparr>flag = True, rules = []\<rparr>
   \<and> ValidateInputJSONByRules2 rx [0]
        [(''age'', [(''age_min'', Some (TermOperand ''GREATER_THAN'' [FieldOperand ''age'', ValueOperand ''17'']))])]
        [(''age'', JString ''abc'')]
      = Inr \<lparr>flag = False, rules = []\<rparr>"
  by (simp add: CreateRule_def SaveRuleToRegister_def ValidateInputJSONByRules_def ValidateInputJSONByRules2_def
      collectContexts_def ExecutAppTask_def GetAllExecutors_def GetTaskData_def createValidatorExecutor_def
      CombineResult_def RegisteredOperators_def operator_names
      GreaterThanOperatorFn_def greater_operand_def Atoi_def is_digit_def GetFieldValue_def)

text \<open>
  C2 at its failing input. With \<open>age_min\<close> as above and \<open>username_length\<close>,
  \<open>GREATER_THAN(LENGTH(username), "6")\<close>, on the input
  \<open>{"age": "abc", "username": "bwillis"}\<close>: the executor of \<open>age_min\<close> returns the zero
  state (flag false), which \<open>CombineResult\<close> turns into a false flag on either side;
  the concurrent engine returns not passed under both schedules, and passed when
  \<open>age_min\<close> is not registered at all. The sequential engine returns passed with the
  rule registered, as lemma \<open>sequential_skips_error_rule\<close> says of it in general;
  lemma \<open>concurrent_error_rule_clears_flag\<close> is the general statement for the
  concurrent one.
\<close>

theorem executor_error_differs_from_unmatched:
  "createValidatorExecutor rx
      \<lparr>RuleName = ''age_min'', FieldValue = ''abc'',
       Rule = Some (TermOperand ''GREATER_THAN'' [FieldOperand ''age'', ValueOperand ''17''])\<rparr> 1
     = Inr \<lparr>state_flag = False, state_rules = []\<rparr>
   \<and> CombineResult \<lparr>state_flag = True, state_rules = []\<rparr> \<lparr>state_flag = False, state_rules = []\<rparr>
     = \<lparr>state_flag = False, state_rules = []\<rparr>
   \<and> CombineResult \<lparr>state_flag = False, state_rules = []\<rparr> \<lparr>state_flag = True, state_rules = []\<rparr>
     = \<lparr>state_flag = False, state_rules = []\<rparr>
   \<and> ValidateInputJSONByRules2 rx [0, 1]
      [(''age'', [(''age_min'', Some (TermOperand ''GREATER_THAN'' [FieldOperand ''age'', ValueOperand ''17'']))]),
       (''username'', [(''username_length'',
          Some (TermOperand ''GREATER_THAN'' [TermOperand ''LENGTH'' [FieldOperand ''username''], ValueOperand ''6'']))])]
      [(''age'', JString ''abc''), (''username'', JString ''bwillis'')]
     = Inr \<lparr>flag = False, rules = []\<rparr>
   \<and> ValidateInputJSONByRules2 rx [1, 0]
      [(''age'', [(''age_min'', Some (TermOperand ''GREATER_THAN'' [FieldOperand ''age'', ValueOperand ''17'']))]),
       (''username'', [(''username_length'',
          Some (TermOperand ''GREATER_THAN'' [TermOperand ''LENGTH'' [FieldOperand ''username''], ValueOperand ''6'']))])]
      [(''age'', JString ''abc''), (''username'', JString ''bwillis'')]
     = Inr \<lparr>flag = False, rules = []\<rparr>
   \<and> ValidateInputJSONByRules2 rx [0]
      [(''username'', [(''username_length'',
          Some (TermOperand ''GREATER_THAN'' [TermOperand ''LENGTH'' [FieldOperand ''username''], ValueOperand ''6'']))])]
      [(''age'', JString ''abc''), (''username'', JString ''bwillis'')]
     = Inr \<lparr>flag = True, rules = []\<rparr>
   \<and> ValidateInputJSONByRules rx
      [(''age'', [(''age_min'', Some (TermOperand ''GREATER_THAN'' [FieldOperand ''age'', ValueOperand ''17'']))]),
       (''username'', [(''username_length'',
          Some (TermOperand ''GREATER_THAN'' [TermOperand ''LENGTH'' [FieldOperand ''username''], ValueOperand ''6'']))])]
      [(''age'', JString ''abc''), (''username'', JString ''bwillis'')]
     = Inr \<lparr>flag = True, rules = []\<rparr>"
  by (simp add: ValidateInputJSONByRules_def ValidateInputJSONByRules2_def
      collectContexts_def ExecutAppTask_def GetAllExecutors_def GetTaskData_def createValidatorExecutor_def
      CombineResult_def RegisteredOperators_def operator_names LengthOperatorFn_def
      GreaterThanOperatorFn_def greater_operand_def Atoi_def is_digit_def GetFieldValue_def)

text \<open>
  The password rule of the API scenarios,
  \<open>OR(EQUAL_TO(LENGTH(password), "0"), GREATER_THAN(LENGTH(password), "6"))\<close>: the empty
  password passes, and \<open>"tesTer"\<close> violates \<open>password_length\<close> under both engines.
\<close>

lemma password_length_scenario:
  "ValidateInputJSONByRules rx
      [(''password'', [(''password_length'',
          Some (TermOperand ''OR''
            [TermOperand ''EQUAL_TO'' [TermOperand ''LENGTH'' [FieldOperand ''password''], ValueOperand ''0''],
             TermOperand ''GREATER_THAN'' [TermOperand ''LENGTH'' [FieldOperand ''password''], ValueOperand ''6'']]))])]
      [(''password'', JString [])]
     = Inr \<lparr>flag = True, rules = []\<rparr>
   \<and> ValidateInputJSONByRules rx
      [(''password'', [(''password_length'',
          Some (TermOperand ''OR''
            [TermOperand ''EQUAL_TO'' [TermOperand ''LENGTH'' [FieldOperand ''password''], ValueOperand ''0''],
             TermOperand ''GREATER_THAN'' [TermOperand ''LENGTH'' [FieldOperand ''password''], ValueOperand ''6'']]))])]
      [(''password'', JString ''tesTer'')]
     = Inr \<lparr>flag = False, rules = [''password_length'']\<rparr>
   \<and> ValidateInputJSONByRules2 rx [0]
      [(''password'', [(''password_length'',
          Some (TermOperand ''OR''
            [TermOperand ''EQUAL_TO'' [TermOperand ''LENGTH'' [FieldOperand ''password''], ValueOperand ''0''],
             TermOperand ''GREATER_THAN'' [TermOperand ''LENGTH'' [FieldOperand ''password''], ValueOperand ''6'']]))])]
      [(''password'', JString ''tesTer'')]
     = Inr \<lparr>flag = False, rules = [''password_length'']\<rparr>"
  by (simp add: ValidateInputJSONByRules_def ValidateInputJSONByRules2_def
      collectContexts_def ExecutAppTask_def GetAllExecutors_def GetTaskData_def createValidatorExecutor_def
      CombineResult_def RegisteredOperators_def operator_names LengthOperatorFn_def OrOperatorFn_def
      EqualToOperatorFn_def equal_operand_def Itoa_def digit_char_def
      GreaterThanOperatorFn_def greater_operand_def Atoi_def is_digit_def GetFieldValue_def)

end
